theory Spec2Isabelle
  imports Main
begin

section \<open>Buffers and JavaScript strings\<close>

text \<open>
  \<^verbatim>\<open>DaemonClient.data\<close> receives a Node.js \<^verbatim>\<open>Buffer\<close> (a sequence of bytes) and turns it
  into a JavaScript string (a sequence of UTF-16 code units) with \<^verbatim>\<open>data.toString()\<close>.
  The two are different types in the source and they are indexed differently
  (\<^verbatim>\<open>Buffer.slice\<close> counts bytes, \<^verbatim>\<open>String.indexOf\<close> and \<^verbatim>\<open>String.slice\<close> count code
  units), so the model keeps them apart: a buffer is a list of bytes (\<open>char\<close> is the
  8-bit byte of HOL), a JavaScript string is a list of code units.
\<close>

type_synonym buffer = "char list"
type_synonym jsstring = "nat list"

text \<open>A string literal of the source whose characters are all ASCII.\<close>

definition js :: "string \<Rightarrow> jsstring" where
  "js s = map of_char s"

text \<open>
  \<^verbatim>\<open>Buffer.toString()\<close> decodes UTF-8. The decoder is the one of the Encoding standard,
  which Node.js follows: \<open>need\<close> counts the continuation bytes still expected, \<open>cp\<close> is
  the code point collected so far, \<open>lo\<close> and \<open>hi\<close> bound the next continuation byte;
  a byte that cannot continue the sequence yields U+FFFD and is read again as the start of
  a new sequence, and a sequence cut off by the end of the buffer yields U+FFFD.
\<close>

fun utf8_decode :: "nat \<Rightarrow> nat \<Rightarrow> nat \<Rightarrow> nat \<Rightarrow> nat list \<Rightarrow> nat list" where
  "utf8_decode need cp lo hi [] = (if need \<noteq> 0 then [0xFFFD] else [])"
| "utf8_decode need cp lo hi (b # bs) =
    (if need = 0 then
       (if b \<le> 0x7F then b # utf8_decode 0 0 0x80 0xBF bs
        else if 0xC2 \<le> b \<and> b \<le> 0xDF then utf8_decode 1 (b mod 32) 0x80 0xBF bs
        else if 0xE0 \<le> b \<and> b \<le> 0xEF then
          utf8_decode 2 (b mod 16)
            (if b = 0xE0 then 0xA0 else 0x80) (if b = 0xED then 0x9F else 0xBF) bs
        else if 0xF0 \<le> b \<and> b \<le> 0xF4 then
          utf8_decode 3 (b mod 8)
            (if b = 0xF0 then 0x90 else 0x80) (if b = 0xF4 then 0x8F else 0xBF) bs
        else 0xFFFD # utf8_decode 0 0 0x80 0xBF bs)
     else if b < lo \<or> hi < b then 0xFFFD # utf8_decode 0 0 0x80 0xBF (b # bs)
     else if need = 1 then (cp * 64 + b mod 64) # utf8_decode 0 0 0x80 0xBF bs
     else utf8_decode (need - 1) (cp * 64 + b mod 64) 0x80 0xBF bs)"

text \<open>A code point as UTF-16 code units: a surrogate pair beyond the basic plane.\<close>

definition utf16 :: "nat \<Rightarrow> nat list" where
  "utf16 c =
     (if c < 0x10000 then [c]
      else [0xD800 + (c - 0x10000) div 1024, 0xDC00 + (c - 0x10000) mod 1024])"

definition toString :: "buffer \<Rightarrow> jsstring" where
  "toString d = concat (map utf16 (utf8_decode 0 0 0x80 0xBF (map of_char d)))"

text \<open>
  \<^verbatim>\<open>String.prototype.indexOf\<close>: the index of the first occurrence of \<open>pat\<close>, \<open>None\<close>
  for the source's \<open>-1\<close>.
\<close>

fun indexOf :: "jsstring \<Rightarrow> jsstring \<Rightarrow> nat option" where
  "indexOf [] pat = (if pat = [] then Some 0 else None)"
| "indexOf (x # xs) pat =
     (if take (length pat) (x # xs) = pat then Some 0
      else map_option Suc (indexOf xs pat))"

text \<open>
  \<^verbatim>\<open>Array.prototype.join(" ")\<close> on the argument vector.
\<close>

fun join_sp :: "jsstring list \<Rightarrow> jsstring" where
  "join_sp [] = []"
| "join_sp [a] = a"
| "join_sp (a # b # bs) = a @ [32] @ join_sp (b # bs)"

text \<open>
  The counter \<^verbatim>\<open>pendingStdinLength\<close> is a JavaScript number. It is an integer
  whenever the request declares \<^verbatim>\<open>stdinLength\<close>; when the field is missing the
  subtraction \<^verbatim>\<open>expectedLength - data.byteLength\<close> is \<^verbatim>\<open>undefined - n\<close>, that is
  \<open>NaN\<close>, for which both \<^verbatim>\<open>> 0\<close> and \<^verbatim>\<open><= 0\<close> are false.
\<close>

datatype jsnum = Num int | NaN

fun gt0 :: "jsnum \<Rightarrow> bool" where
  "gt0 (Num n) = (0 < n)"
| "gt0 NaN = False"

fun le0 :: "jsnum \<Rightarrow> bool" where
  "le0 (Num n) = (n \<le> 0)"
| "le0 NaN = False"

fun minus_byteLength :: "jsnum \<Rightarrow> buffer \<Rightarrow> jsnum" where
  "minus_byteLength (Num n) d = Num (n - int (length d))"
| "minus_byteLength NaN d = NaN"

fun of_opt :: "int option \<Rightarrow> jsnum" where
  "of_opt (Some n) = Num n"
| "of_opt None = NaN"

section \<open>The daemon client (\<^verbatim>\<open>packages/cli/src/DaemonClient.ts\<close>)\<close>

text \<open>
  The fields of the parsed request that \<^verbatim>\<open>DaemonClient\<close> reads. A field that is
  missing or \<^verbatim>\<open>null\<close> in the JSON is \<open>None\<close>.
\<close>

record IDaemonResponse =
  argv :: "jsstring list option"
  user :: "jsstring option"
  stdin :: "jsstring option"
  stdinLength :: "int option"

text \<open>
  What the source takes from outside \<^verbatim>\<open>src/\<close>: the constant
  \<^verbatim>\<open>DaemonRequest.EOW_DELIMITER\<close>, \<^verbatim>\<open>JSON.parse\<close> (\<open>None\<close> when it throws) and
  \<^verbatim>\<open>Buffer.from(_, 'base64')\<close> (\<open>None\<close> when it throws). They are parameters of the
  model.
\<close>

record platform =
  EOW_DELIMITER :: jsstring
  JSON_parse :: "jsstring \<Rightarrow> IDaemonResponse option"
  Buffer_from_base64 :: "jsstring \<Rightarrow> buffer option"

text \<open>
  What is written to the client socket: a plain string, or the result of
  \<^verbatim>\<open>DaemonRequest.create({stderr, exitCode})\<close>.
\<close>

datatype client_write = Text jsstring | Created (stderr: jsstring) (exitCode: int)

datatype js_error = SyntaxError | TypeError

text \<open>
  The state a session acts on: its own counter and constructor arguments, the client
  socket (what was written, whether \<^verbatim>\<open>end()\<close> was called, and the extra
  \<^verbatim>\<open>"data"\<close> listener that \<^verbatim>\<open>writeToStdin\<close> registers, with the request whose
  dispatch waits for it), the server (\<open>None\<close>: no server object, \<open>Some b\<close>: a server
  that is listening iff \<open>b\<close>), \<^verbatim>\<open>process.stdin\<close> (the chunks pushed since it was
  last reset, whether \<^verbatim>\<open>push(null)\<close> ended it, \<^verbatim>\<open>isTTY\<close>), the calls of
  \<^verbatim>\<open>Imperative.parse\<close> and the errors with which the asynchronous handler was rejected.
  Logging is left out.
\<close>

record DaemonClient =
  pendingStdinLength :: jsnum
  mOwner :: jsstring
  mServer :: "bool option"
  written :: "client_write list"
  ended :: bool
  listener :: "IDaemonResponse option"
  stdin_pushed :: "buffer list"
  stdin_ended :: bool
  isTTY :: bool
  commandLine :: "jsstring option"
  parsed :: "jsstring list list"
  rejected :: "js_error list"

definition CTRL_C_CHAR :: jsstring where
  "CTRL_C_CHAR = [3]"

definition shutdown :: "DaemonClient \<Rightarrow> DaemonClient" where
  "shutdown s =
     s\<lparr>written := written s @ [Text (js ''Terminating server'')],
       ended := True,
       mServer := map_option (\<lambda>_. False) (mServer s)\<rparr>"

text \<open>
  The tail of \<^verbatim>\<open>data\<close> after \<^verbatim>\<open>writeToStdin\<close>: the command line is set and
  \<^verbatim>\<open>Imperative.parse\<close> is called; \<^verbatim>\<open>argv.join\<close> on a missing \<^verbatim>\<open>argv\<close> throws.
\<close>

definition dispatch :: "IDaemonResponse \<Rightarrow> DaemonClient \<Rightarrow> DaemonClient" where
  "dispatch jsonData s =
     (case argv jsonData of
        None \<Rightarrow> s\<lparr>rejected := rejected s @ [TypeError]\<rparr>
      | Some a \<Rightarrow> s\<lparr>commandLine := Some (join_sp a), parsed := parsed s @ [a]\<rparr>)"

text \<open>
  \<^verbatim>\<open>writeToStdin\<close> up to its \<^verbatim>\<open>await\<close>: stdin is marked as not a terminal and reset,
  the first slice is pushed and the counter set. With bytes still pending the listener is
  registered and the call is suspended; otherwise stdin is ended and \<^verbatim>\<open>data\<close> goes on
  to dispatch.
\<close>

definition writeToStdin ::
  "buffer \<Rightarrow> int option \<Rightarrow> IDaemonResponse \<Rightarrow> DaemonClient \<Rightarrow> DaemonClient" where
  "writeToStdin d expectedLength jsonData s =
     (let s1 = s\<lparr>isTTY := False, stdin_pushed := [d], stdin_ended := False,
                 pendingStdinLength := minus_byteLength (of_opt expectedLength) d\<rparr>
      in if gt0 (pendingStdinLength s1) then s1\<lparr>listener := Some jsonData\<rparr>
         else dispatch jsonData (s1\<lparr>stdin_ended := True\<rparr>))"

text \<open>
  The listener of \<^verbatim>\<open>writeToStdin\<close>, called with every later chunk: push it, count it,
  and once nothing is pending remove the listener and resume (\<^verbatim>\<open>push(null)\<close>, then the
  tail of \<^verbatim>\<open>data\<close>).
\<close>

definition stdin_listener :: "buffer \<Rightarrow> IDaemonResponse \<Rightarrow> DaemonClient \<Rightarrow> DaemonClient" where
  "stdin_listener d jsonData s =
     (let s1 = s\<lparr>stdin_pushed := stdin_pushed s @ [d],
                 pendingStdinLength := minus_byteLength (pendingStdinLength s) d\<rparr>
      in if le0 (pendingStdinLength s1)
         then dispatch jsonData (s1\<lparr>listener := None, stdin_ended := True\<rparr>)
         else s1)"

definition jsonEndIdx :: "platform \<Rightarrow> buffer \<Rightarrow> nat option" where
  "jsonEndIdx P d = indexOf (toString d) (js ''}'' @ EOW_DELIMITER P)"

definition jsonText :: "platform \<Rightarrow> buffer \<Rightarrow> jsstring" where
  "jsonText P d =
     (case jsonEndIdx P d of Some i \<Rightarrow> take (i + 1) (toString d) | None \<Rightarrow> toString d)"

definition stdinData :: "platform \<Rightarrow> buffer \<Rightarrow> buffer option" where
  "stdinData P d = (case jsonEndIdx P d of Some i \<Rightarrow> Some (drop (i + 2) d) | None \<Rightarrow> None)"

definition requestUser :: "platform \<Rightarrow> IDaemonResponse \<Rightarrow> jsstring option" where
  "requestUser P jsonData =
     (case user jsonData of
        None \<Rightarrow> None
      | Some u \<Rightarrow> map_option toString (Buffer_from_base64 P u))"

definition reject :: "jsstring \<Rightarrow> DaemonClient \<Rightarrow> DaemonClient" where
  "reject msg s = s\<lparr>written := written s @ [Created msg 1], ended := True\<rparr>"

definition no_user_msg :: jsstring where
  "no_user_msg =
     js ''The daemon client did not supply user information or supplied bad information.''
       @ [10]"

definition other_user_msg :: "jsstring \<Rightarrow> jsstring" where
  "other_user_msg u = js ''The user '' @ [39] @ u @ [39] @ js '' cannot use this daemon.'' @ [10]"

text \<open>The handler of the socket's \<^verbatim>\<open>"data"\<close> event.\<close>

definition data :: "platform \<Rightarrow> buffer \<Rightarrow> DaemonClient \<Rightarrow> DaemonClient" where
  "data P d s =
     (if gt0 (pendingStdinLength s) then s
      else case JSON_parse P (jsonText P d) of
        None \<Rightarrow> s\<lparr>rejected := rejected s @ [SyntaxError]\<rparr>
      | Some jsonData \<Rightarrow>
         (case requestUser P jsonData of
            None \<Rightarrow> reject no_user_msg s
          | Some u \<Rightarrow>
             if u = [] then reject no_user_msg s
             else if u \<noteq> mOwner s then reject (other_user_msg u) s
             else (case stdin jsonData of
                 Some c \<Rightarrow>
                   if c \<noteq> CTRL_C_CHAR then s
                   else if mServer s \<noteq> None then shutdown s
                   else s
               | None \<Rightarrow>
                  (case stdinData P d of
                     Some b \<Rightarrow> writeToStdin b (stdinLength jsonData) jsonData s
                   | None \<Rightarrow> dispatch jsonData s))))"

text \<open>
  One read of the socket: the \<^verbatim>\<open>"data"\<close> event calls the listeners registered when it
  is emitted, in the order of their registration: first \<^verbatim>\<open>data\<close> (registered by
  \<^verbatim>\<open>run\<close>), then the listener of \<^verbatim>\<open>writeToStdin\<close> if it was registered before this
  read.
\<close>

definition on_data :: "platform \<Rightarrow> DaemonClient \<Rightarrow> buffer \<Rightarrow> DaemonClient" where
  "on_data P s d =
     (case listener s of
        None \<Rightarrow> data P d s
      | Some jsonData \<Rightarrow> stdin_listener d jsonData (data P d s))"

text \<open>The reads of one connection, in arrival order.\<close>

definition reads :: "platform \<Rightarrow> buffer list \<Rightarrow> DaemonClient \<Rightarrow> DaemonClient" where
  "reads P ds s = foldl (on_data P) s ds"

text \<open>The bytes that \<^verbatim>\<open>process.stdin\<close> holds for the dispatcher.\<close>

definition stdin_bytes :: "DaemonClient \<Rightarrow> buffer" where
  "stdin_bytes s = concat (stdin_pushed s)"

text \<open>
  \<^verbatim>\<open>new DaemonClient(client, server, owner)\<close> on a fresh connection, in a process whose
  stdin is still a terminal and that has dispatched nothing yet.
\<close>

definition new_DaemonClient :: "bool option \<Rightarrow> jsstring \<Rightarrow> DaemonClient" where
  "new_DaemonClient server owner =
     \<lparr>pendingStdinLength = Num 0, mOwner = owner, mServer = server, written = [],
      ended = False, listener = None, stdin_pushed = [], stdin_ended = False, isTTY = True,
      commandLine = None, parsed = [], rejected = []\<rparr>"

text \<open>
  Every continuation chunk of \<open>ps\<close> arrives while the counter, \<open>r\<close> before the first of
  them, is still positive.
\<close>

fun pending_all :: "int \<Rightarrow> buffer list \<Rightarrow> bool" where
  "pending_all r [] = True"
| "pending_all r (p # ps) = (0 < r \<and> pending_all (r - int (length p)) ps)"

text \<open>
  A well-framed request on an idle session, as the launcher sends it when the JSON text is
  ASCII: the text \<open>j0 @ ''}''\<close> holds no delimiter, the delimiter is the single ASCII
  character \<open>ec\<close> (the source's \<^verbatim>\<open>jsonEndIdx + 2\<close> skips one \<^verbatim>\<open>}\<close> and one
  delimiter), the text parses to \<open>req\<close>, the identity of \<open>req\<close> is the owner's, and
  \<open>req\<close> has no \<^verbatim>\<open>stdin\<close> field.
\<close>

definition framed ::
  "platform \<Rightarrow> DaemonClient \<Rightarrow> string \<Rightarrow> char \<Rightarrow> IDaemonResponse \<Rightarrow> bool" where
  "framed P s j0 ec req \<longleftrightarrow>
     EOW_DELIMITER P = [of_char ec] \<and> of_char ec < (128::nat) \<and> ec \<noteq> CHR ''}'' \<and>
     list_all (\<lambda>c. of_char c < (128::nat) \<and> c \<noteq> ec) j0 \<and>
     JSON_parse P (js (j0 @ ''}'')) = Some req \<and>
     requestUser P req = Some (mOwner s) \<and> mOwner s \<noteq> [] \<and> stdin req = None \<and>
     \<not> gt0 (pendingStdinLength s) \<and> listener s = None"

subsection \<open>Example requests\<close>

text \<open>
  The requests of the examples, as JSON text and as parsed: an interrupt (the payload is
  the escaped Ctrl+C character) from the user whose base64 token is \<open>u\<close>, a late prompt
  reply, and a command with one argument and one byte of piped input. \<open>em93ZQ==\<close> is the
  base64 of \<open>zowe\<close>, \<open>bWFsbG9yeQ==\<close> the base64 of \<open>mallory\<close>; \<open>e_acute\<close> is the UTF-8
  of U+00E9.
\<close>

definition interrupt_json :: "string \<Rightarrow> string" where
  \<open>interrupt_json u = ''{"stdin":"'' @ [CHR 0x5C] @ ''u0003","user":"'' @ u @ ''"}''\<close>

definition interrupt_request :: "string \<Rightarrow> IDaemonResponse" where
  "interrupt_request u =
     \<lparr>argv = None, user = Some (js u), stdin = Some [3], stdinLength = None\<rparr>"

definition anonymous_interrupt_json :: string where
  \<open>anonymous_interrupt_json = ''{"stdin":"'' @ [CHR 0x5C] @ ''u0003"}''\<close>

definition anonymous_interrupt_request :: IDaemonResponse where
  "anonymous_interrupt_request =
     \<lparr>argv = None, user = None, stdin = Some [3], stdinLength = None\<rparr>"

definition reply_json :: string where
  \<open>reply_json = ''{"stdin":"y","user":"em93ZQ=="}''\<close>

definition reply_request :: IDaemonResponse where
  "reply_request =
     \<lparr>argv = None, user = Some (js ''em93ZQ==''), stdin = Some (js ''y''),
      stdinLength = None\<rparr>"

definition upload_head :: "string \<Rightarrow> string" where
  \<open>upload_head name = ''{"argv":["'' @ name @ ''"],"user":"em93ZQ==","stdinLength":1''\<close>

definition upload_json :: "string \<Rightarrow> string" where
  "upload_json name = upload_head name @ ''}''"

definition upload_request :: "jsstring \<Rightarrow> IDaemonResponse" where
  "upload_request name =
     \<lparr>argv = Some [name], user = Some (js ''em93ZQ==''), stdin = None,
      stdinLength = Some 1\<rparr>"

definition e_acute :: string where
  "e_acute = [CHR 0xC3, CHR 0xA9]"

text \<open>
  The platform of the examples: the delimiter is the form feed, and the two library
  functions are given at the inputs the examples use.
\<close>

definition P0 :: platform where
  "P0 = \<lparr>EOW_DELIMITER = [12],
     JSON_parse = (\<lambda>t.
        if t = js (interrupt_json ''em93ZQ=='') then Some (interrupt_request ''em93ZQ=='')
        else if t = js (interrupt_json ''bWFsbG9yeQ=='')
          then Some (interrupt_request ''bWFsbG9yeQ=='')
        else if t = js anonymous_interrupt_json then Some anonymous_interrupt_request
        else if t = js reply_json then Some reply_request
        else if t = js (upload_json ''a'') then Some (upload_request (js ''a''))
        else if t = toString (upload_json e_acute) then Some (upload_request [233])
        else None),
     Buffer_from_base64 = (\<lambda>u.
        if u = js ''em93ZQ=='' then Some ''zowe''
        else if u = js ''bWFsbG9yeQ=='' then Some ''mallory''
        else None)\<rparr>"

definition s0 :: DaemonClient where
  "s0 = new_DaemonClient (Some True) (js ''zowe'')"

section \<open>Paths and files\<close>

text \<open>
  \<^verbatim>\<open>path.join\<close> of Node.js, in its POSIX form: the arguments that are not empty are
  joined with \<open>/\<close> and the result is normalised (empty and \<open>.\<close> segments are dropped,
  \<open>..\<close> removes the segment before it, and above the start of a relative path stays).
\<close>

fun split_slash :: "string \<Rightarrow> string list" where
  "split_slash [] = [[]]"
| "split_slash (c # cs) =
     (if c = CHR ''/'' then [] # split_slash cs
      else case split_slash cs of
             seg # segs \<Rightarrow> (c # seg) # segs
           | [] \<Rightarrow> [[c]])"

fun join_slash :: "string list \<Rightarrow> string" where
  "join_slash [] = []"
| "join_slash [a] = a"
| "join_slash (a # b # bs) = a @ ''/'' @ join_slash (b # bs)"

fun normalize_segs :: "bool \<Rightarrow> string list \<Rightarrow> string list \<Rightarrow> string list" where
  "normalize_segs allowAboveRoot res [] = rev res"
| "normalize_segs allowAboveRoot res (seg # segs) =
     (if seg = [] \<or> seg = ''.'' then normalize_segs allowAboveRoot res segs
      else if seg = ''..'' then
        (case res of
           [] \<Rightarrow> normalize_segs allowAboveRoot (if allowAboveRoot then [''..''] else []) segs
         | lastSeg # below \<Rightarrow>
             if lastSeg = ''..''
             then normalize_segs allowAboveRoot (if allowAboveRoot then ''..'' # res else res) segs
             else normalize_segs allowAboveRoot below segs)
      else normalize_segs allowAboveRoot (seg # res) segs)"

definition path_normalize :: "string \<Rightarrow> string" where
  "path_normalize path =
     (if path = [] then ''.''
      else
        let isAbsolute = (hd path = CHR ''/'');
            trailingSeparator = (last path = CHR ''/'');
            p = join_slash (normalize_segs (\<not> isAbsolute) [] (split_slash path))
        in if p = [] then (if isAbsolute then ''/'' else if trailingSeparator then ''./'' else ''.'')
           else (if isAbsolute then ''/'' else []) @ p @ (if trailingSeparator then ''/'' else []))"

definition path_join :: "string list \<Rightarrow> string" where
  "path_join args =
     (if filter (\<lambda>a. a \<noteq> []) args = [] then ''.''
      else path_normalize (join_slash (filter (\<lambda>a. a \<noteq> []) args)))"

text \<open>
  A name that is one segment of a path, and the absolute path of a list of them.
\<close>

definition clean :: "string \<Rightarrow> bool" where
  "clean seg \<longleftrightarrow> seg \<noteq> [] \<and> list_all (\<lambda>c. c \<noteq> CHR ''/'') seg \<and> seg \<noteq> ''.'' \<and> seg \<noteq> ''..''"

fun abs_path :: "string list \<Rightarrow> string" where
  "abs_path [] = []"
| "abs_path (seg # segs) = ''/'' @ seg @ abs_path segs"

text \<open>
  The file system as the event code uses it: a path is a directory or a file with its
  contents. \<^verbatim>\<open>mkdirSync\<close> and the creation of a file fail when the parent directory is
  missing; the root and the working directory (the parent of a path without \<open>/\<close>) exist.
\<close>

datatype node = Dir | File string

type_synonym filesystem = "string \<Rightarrow> node option"

datatype fs_error = ENOENT | EEXIST | EISDIR

fun dirname_segs :: "string list \<Rightarrow> string" where
  "dirname_segs segs = join_slash (butlast segs)"

definition parent_exists :: "filesystem \<Rightarrow> string \<Rightarrow> bool" where
  "parent_exists fs p =
     (let parent = dirname_segs (split_slash p)
      in length (split_slash p) \<le> 1 \<or> parent = [] \<or> fs parent = Some Dir)"

definition existsSync :: "filesystem \<Rightarrow> string \<Rightarrow> bool" where
  "existsSync fs p = (fs p \<noteq> None)"

definition mkdirSync :: "filesystem \<Rightarrow> string \<Rightarrow> fs_error + filesystem" where
  "mkdirSync fs p =
     (if fs p \<noteq> None then Inl EEXIST
      else if \<not> parent_exists fs p then Inl ENOENT
      else Inr (fs(p \<mapsto> Dir)))"

definition writeFileSync :: "filesystem \<Rightarrow> string \<Rightarrow> string \<Rightarrow> fs_error + filesystem" where
  "writeFileSync fs p contents =
     (if fs p = Some Dir then Inl EISDIR
      else if \<not> parent_exists fs p then Inl ENOENT
      else Inr (fs(p \<mapsto> File contents)))"

definition readFileSync :: "filesystem \<Rightarrow> string \<Rightarrow> fs_error + string" where
  "readFileSync fs p =
     (case fs p of
        None \<Rightarrow> Inl ENOENT
      | Some Dir \<Rightarrow> Inl EISDIR
      | Some (File contents) \<Rightarrow> Inr contents)"

section \<open>The event emitter (\<^verbatim>\<open>ImperativeEventEmitter.ts\<close>)\<close>

text \<open>
  What is thrown: an \<^verbatim>\<open>ImperativeError\<close> with its message and, when it wraps a failure
  of the file system, its \<^verbatim>\<open>causeErrors\<close>; a failure of the file system that is not
  wrapped; an error of the language.
\<close>

datatype thrown =
  ImperativeError (message: string) (causeErrors: "fs_error option")
| Fs fs_error
| Js js_error

text \<open>
  A timestamp as read from an event file or from \<^verbatim>\<open>eventTimes.get\<close>: a string, or
  \<^verbatim>\<open>undefined\<close>.
\<close>

datatype time_val = Undefined | Str string

type_synonym callback = nat

text \<open>
  What the class takes from outside \<^verbatim>\<open>src/\<close>: the home directories, the members of the
  enums \<^verbatim>\<open>ImperativeUserEvents\<close> and \<^verbatim>\<open>ImperativeSharedEvents\<close>, the text that
  \<^verbatim>\<open>JSON.stringify({...event.toJson(), loc}, null, 2)\<close> gives for a new
  \<^verbatim>\<open>ImperativeEvent\<close> (of the application, the event type, the user flag, the time of
  its creation and the location), and the \<^verbatim>\<open>time\<close> field that \<^verbatim>\<open>JSON.parse\<close> finds in a
  text (\<open>None\<close> when it throws).
\<close>

record host =
  cliHome :: string
  homedir :: string
  ImperativeUserEvents :: "string list"
  ImperativeSharedEvents :: "string list"
  event_text :: "string option \<Rightarrow> string \<Rightarrow> bool \<Rightarrow> string \<Rightarrow> string \<Rightarrow> string"
  json_time :: "string \<Rightarrow> time_val option"

text \<open>
  A watcher made by \<^verbatim>\<open>fs.watch\<close> in \<^verbatim>\<open>setupWatcher\<close>: its listener has captured the
  event type and the callbacks. Callbacks are opaque; calling one is recorded in
  \<open>invoked\<close>. They are taken not to throw and not to call back into the emitter.
\<close>

record watcher =
  w_event :: string
  w_callbacks :: "callback list"
  w_closed :: bool

record ImperativeEventEmitter =
  initialized :: bool
  appName :: "string option"
  subscriptions :: "string \<Rightarrow> (nat \<times> callback list) option"
  eventTimes :: "string \<Rightarrow> time_val option"
  fs :: filesystem
  watchers :: "watcher list"
  invoked :: "callback list"

text \<open>
  The value \<^verbatim>\<open>subscribe\<close> returns: \<^verbatim>\<open>{ close: watcher.close }\<close>, for the watcher it has
  just set up.
\<close>

datatype IImperativeRegisteredAction = Close_of_watcher nat

definition already_initialized :: thrown where
  "already_initialized =
     ImperativeError ''Only one instance of the Imperative Event Emitter is allowed'' None"

definition not_initialized :: thrown where
  "not_initialized =
     ImperativeError ''You must initialize the instance before using any of its methods.'' None"

definition initialize ::
  "string option \<Rightarrow> ImperativeEventEmitter \<Rightarrow> (thrown + unit) \<times> ImperativeEventEmitter" where
  "initialize name st =
     (if initialized st then (Inl already_initialized, st)
      else (Inr (), st\<lparr>initialized := True, appName := name\<rparr>))"

definition ensureEventsDirExists :: "filesystem \<Rightarrow> string \<Rightarrow> thrown + filesystem" where
  "ensureEventsDirExists f directoryPath =
     (if \<not> existsSync f directoryPath then
        (case mkdirSync f directoryPath of
           Inl err \<Rightarrow>
             Inl (ImperativeError
                   (''Unable to create '' @ [CHR 0x27] @ ''.events'' @ [CHR 0x27]
                      @ '' directory. Path: '' @ directoryPath) (Some err))
         | Inr f' \<Rightarrow> Inr f')
      else Inr f)"

definition ensureEventFileExists :: "filesystem \<Rightarrow> string \<Rightarrow> thrown + filesystem" where
  "ensureEventFileExists f filePath =
     (if \<not> existsSync f filePath then
        (case writeFileSync f filePath [] of
           Inl err \<Rightarrow>
             Inl (ImperativeError (''Unable to create event file. Path: '' @ filePath) (Some err))
         | Inr f' \<Rightarrow> Inr f')
      else Inr f)"

definition isUserEvent :: "host \<Rightarrow> string \<Rightarrow> bool" where
  "isUserEvent H eventType = (eventType \<in> set (ImperativeUserEvents H))"

definition isSharedEvent :: "host \<Rightarrow> string \<Rightarrow> bool" where
  "isSharedEvent H eventType = (eventType \<in> set (ImperativeSharedEvents H))"

definition isCustomEvent :: "host \<Rightarrow> string \<Rightarrow> bool" where
  "isCustomEvent H eventType = (\<not> isUserEvent H eventType \<and> \<not> isSharedEvent H eventType)"

definition getSharedEventDir :: "host \<Rightarrow> string" where
  "getSharedEventDir H = path_join [cliHome H, ''.events'']"

definition getUserEventDir :: "host \<Rightarrow> string" where
  "getUserEventDir H = path_join [homedir H, ''.zowe'', ''.events'']"

definition getEventDir :: "host \<Rightarrow> string \<Rightarrow> string" where
  "getEventDir H eventType =
     (if isUserEvent H eventType then getUserEventDir H
      else if isSharedEvent H eventType then getSharedEventDir H
      else getSharedEventDir H)"

definition eventTimes_get :: "ImperativeEventEmitter \<Rightarrow> string \<Rightarrow> time_val" where
  "eventTimes_get st eventType =
     (case eventTimes st eventType of None \<Rightarrow> Undefined | Some t \<Rightarrow> t)"

text \<open>
  The listener that \<^verbatim>\<open>setupWatcher\<close> gives to \<^verbatim>\<open>fs.watch\<close>, run at every native
  notification: the event file is read again, and the callbacks run, in the order of the
  list, only when its time is not the one delivered last.
\<close>

definition watch_listener ::
  "host \<Rightarrow> string \<Rightarrow> callback list \<Rightarrow> ImperativeEventEmitter
     \<Rightarrow> thrown option \<times> ImperativeEventEmitter" where
  "watch_listener H eventType callbacks st =
     (case readFileSync (fs st) (path_join [getEventDir H eventType, eventType]) of
        Inl err \<Rightarrow> (Some (Fs err), st)
      | Inr eventContents \<Rightarrow>
         (case (if eventContents = [] then Some (Str []) else json_time H eventContents) of
            None \<Rightarrow> (Some (Js SyntaxError), st)
          | Some eventTime \<Rightarrow>
              if eventTimes_get st eventType \<noteq> eventTime
              then (None, st\<lparr>invoked := invoked st @ callbacks,
                              eventTimes := (eventTimes st)(eventType \<mapsto> eventTime)\<rparr>)
              else (None, st)))"

text \<open>A native notification of the watcher \<open>w\<close>; a closed watcher has no listener.\<close>

definition notify ::
  "host \<Rightarrow> nat \<Rightarrow> ImperativeEventEmitter \<Rightarrow> thrown option \<times> ImperativeEventEmitter" where
  "notify H w st =
     (if w < length (watchers st) \<and> \<not> w_closed (watchers st ! w)
      then watch_listener H (w_event (watchers st ! w)) (w_callbacks (watchers st ! w)) st
      else (None, st))"

definition close_watcher :: "nat \<Rightarrow> ImperativeEventEmitter \<Rightarrow> ImperativeEventEmitter" where
  "close_watcher w st =
     (if w < length (watchers st)
      then st\<lparr>watchers := (watchers st)[w := (watchers st ! w)\<lparr>w_closed := True\<rparr>]\<rparr>
      else st)"

definition setupWatcher ::
  "host \<Rightarrow> string \<Rightarrow> callback list \<Rightarrow> ImperativeEventEmitter
     \<Rightarrow> (thrown + nat) \<times> ImperativeEventEmitter" where
  "setupWatcher H eventType callbacks st =
     (let dir = getEventDir H eventType in
      case ensureEventsDirExists (fs st) dir of
        Inl err \<Rightarrow> (Inl err, st)
      | Inr f1 \<Rightarrow>
         (case ensureEventFileExists f1 (path_join [dir, eventType]) of
            Inl err \<Rightarrow> (Inl err, st\<lparr>fs := f1\<rparr>)
          | Inr f2 \<Rightarrow>
              (Inr (length (watchers st)),
               st\<lparr>fs := f2,
                  watchers := watchers st
                    @ [\<lparr>w_event = eventType, w_callbacks = callbacks, w_closed = False\<rparr>],
                  subscriptions :=
                    (subscriptions st)(eventType \<mapsto> (length (watchers st), callbacks))\<rparr>)))"

definition subscribe ::
  "host \<Rightarrow> string \<Rightarrow> callback \<Rightarrow> ImperativeEventEmitter
     \<Rightarrow> (thrown + IImperativeRegisteredAction) \<times> ImperativeEventEmitter" where
  "subscribe H eventType cb st =
     (if \<not> initialized st then (Inl not_initialized, st)
      else
        case (case subscriptions st eventType of
                Some (watcherToClose, callbacks) \<Rightarrow>
                  setupWatcher H eventType (callbacks @ [cb]) (close_watcher watcherToClose st)
              | None \<Rightarrow> setupWatcher H eventType [cb] st) of
          (Inl err, st') \<Rightarrow> (Inl err, st')
        | (Inr w, st') \<Rightarrow> (Inr (Close_of_watcher w), st'))"

definition unsubscribe ::
  "string \<Rightarrow> ImperativeEventEmitter \<Rightarrow> (thrown + unit) \<times> ImperativeEventEmitter" where
  "unsubscribe eventType st =
     (if \<not> initialized st then (Inl not_initialized, st)
      else
        let st1 = (case subscriptions st eventType of
                     Some (watcherToClose, callbacks) \<Rightarrow>
                       (close_watcher watcherToClose st)
                         \<lparr>subscriptions := (subscriptions st)(eventType := None)\<rparr>
                   | None \<Rightarrow> st)
        in (Inr (), st1\<lparr>eventTimes := (eventTimes st1)(eventType := None)\<rparr>))"

definition writeEvent ::
  "string \<Rightarrow> string \<Rightarrow> string \<Rightarrow> ImperativeEventEmitter
     \<Rightarrow> (thrown + unit) \<times> ImperativeEventEmitter" where
  "writeEvent location eventType text_of_event st =
     (case ensureEventsDirExists (fs st) location of
        Inl err \<Rightarrow> (Inl err, st)
      | Inr f1 \<Rightarrow>
         (case writeFileSync f1 (path_join [location, eventType]) text_of_event of
            Inl err \<Rightarrow> (Inl (Fs err), st\<lparr>fs := f1\<rparr>)
          | Inr f2 \<Rightarrow> (Inr (), st\<lparr>fs := f2\<rparr>)))"

definition emitEvent ::
  "host \<Rightarrow> string \<Rightarrow> string \<Rightarrow> ImperativeEventEmitter
     \<Rightarrow> (thrown + unit) \<times> ImperativeEventEmitter" where
  "emitEvent H now eventType st =
     (if \<not> initialized st then (Inl not_initialized, st)
      else if isCustomEvent H eventType
      then (Inl (ImperativeError
                  (''Unable to determine the type of event. Event: '' @ eventType) None), st)
      else writeEvent (getEventDir H eventType) eventType
             (event_text H (appName st) eventType (isUserEvent H eventType) now
                (getEventDir H eventType)) st)"

definition emitCustomEvent ::
  "host \<Rightarrow> string \<Rightarrow> string \<Rightarrow> ImperativeEventEmitter
     \<Rightarrow> (thrown + unit) \<times> ImperativeEventEmitter" where
  "emitCustomEvent H now eventType st =
     (if \<not> initialized st then (Inl not_initialized, st)
      else if \<not> isCustomEvent H eventType
      then (Inl (ImperativeError
                  (''Operation not allowed. Event is considered protected. Event: ''
                     @ eventType) None), st)
      else writeEvent (getSharedEventDir H) eventType
             (event_text H (appName st) eventType (isUserEvent H eventType) now
                (getSharedEventDir H)) st)"

text \<open>
  Calling \<^verbatim>\<open>close\<close> on what \<^verbatim>\<open>subscribe\<close> returned, \<^verbatim>\<open>d.close()\<close>. The object
  \<^verbatim>\<open>d\<close> holds the \<^verbatim>\<open>close\<close> method taken off the watcher, so the call runs with
  \<^verbatim>\<open>d\<close> as its receiver and not the watcher: it reaches neither the watcher nor the
  emitter, it throws, and nothing is changed.
\<close>

fun dispose ::
  "IImperativeRegisteredAction \<Rightarrow> ImperativeEventEmitter
     \<Rightarrow> thrown option \<times> ImperativeEventEmitter" where
  "dispose (Close_of_watcher w) st = (Some (Js TypeError), st)"

text \<open>A failure of the environment: of the file system, or of parsing a file.\<close>

fun runtime_failure :: "thrown \<Rightarrow> bool" where
  "runtime_failure (ImperativeError m c) = (c \<noteq> None)"
| "runtime_failure (Fs e) = True"
| "runtime_failure (Js e) = True"

definition new_emitter :: "filesystem \<Rightarrow> ImperativeEventEmitter" where
  "new_emitter f =
     \<lparr>initialized = False, appName = None, subscriptions = (\<lambda>_. None),
      eventTimes = (\<lambda>_. None), fs = f, watchers = [], invoked = []\<rparr>"

section \<open>The event utilities (\<^verbatim>\<open>EventUtils.ts\<close>)\<close>

text \<open>
  Modelled from the spec: the enum \<^verbatim>\<open>EventTypes\<close> is declared in
  \<^verbatim>\<open>EventConstants\<close>, outside \<^verbatim>\<open>src/\<close>. The source names its two custom members; the
  spec's scopes are User, Shared and Custom, so the other two members are the user and
  the shared events.
\<close>

datatype EventTypes = ZoweUserEvents | ZoweSharedEvents | CustomSharedEvents | CustomUserEvents

text \<open>
  An \<^verbatim>\<open>Event\<close> object with the fields \<^verbatim>\<open>createSubscription\<close> gives it; its
  \<^verbatim>\<open>subscriptions\<close> are the watchers pushed by \<^verbatim>\<open>setupWatcher\<close>.
\<close>

record Event =
  eventTime :: string
  eventName :: string
  eventType :: EventTypes
  ev_appName :: string
  filePath :: string
  ev_subscriptions :: "nat list"

text \<open>The argument \<^verbatim>\<open>callbacks: EventCallback[] | EventCallback\<close>.\<close>

datatype callbacks_arg = Many "callback list" | One callback

text \<open>
  A watcher made by \<^verbatim>\<open>EventUtils.setupWatcher\<close>: its listener has captured the event
  name, the callbacks and the \<^verbatim>\<open>Event\<close> object itself (a reference into the heap).
\<close>

record ee_watcher =
  ew_name :: string
  ew_event :: nat
  ew_callbacks :: callbacks_arg
  ew_closed :: bool

text \<open>
  The \<^verbatim>\<open>EventEmitter\<close> instance that \<^verbatim>\<open>EventUtils\<close> works on, with the fields the
  source uses (\<^verbatim>\<open>appName\<close>, \<^verbatim>\<open>subscribedEvents\<close>, \<^verbatim>\<open>eventTimes\<close>), the
  \<^verbatim>\<open>Event\<close> objects it refers to, and the file system, the watchers and the record of
  the callbacks called.
\<close>

record EventEmitter =
  ee_appName :: string
  subscribedEvents :: "string \<Rightarrow> nat option"
  heap :: "nat \<Rightarrow> Event option"
  next_ref :: nat
  ee_eventTimes :: "string \<Rightarrow> string option"
  ee_fs :: filesystem
  ee_watchers :: "ee_watcher list"
  ee_invoked :: "callback list"

text \<open>The value \<^verbatim>\<open>createSubscription\<close> returns: \<^verbatim>\<open>{ close: () => eeInst.unsubscribe(eventName) }\<close>.\<close>

datatype IRegisteredAction = Close_unsubscribe string

definition EventUtils_getEventDir :: "EventTypes \<Rightarrow> string \<Rightarrow> string" where
  "EventUtils_getEventDir evType name =
     (if evType = CustomSharedEvents \<or> evType = CustomUserEvents
      then path_join [''.events'', name] else ''.events'')"

text \<open>
  \<^verbatim>\<open>createSubscription\<close>, with the result of \<^verbatim>\<open>ConfigUtils.getZoweDir()\<close> and of
  \<^verbatim>\<open>new Date().toISOString()\<close> as arguments. \<^verbatim>\<open>EventUtils.ensureEventsDirExists\<close> and
  \<^verbatim>\<open>EventUtils.ensureFileExists\<close> have the bodies and messages of the emitter's
  \<^verbatim>\<open>ensureEventsDirExists\<close> and \<^verbatim>\<open>ensureEventFileExists\<close>.
\<close>

definition createSubscription ::
  "string \<Rightarrow> string \<Rightarrow> string \<Rightarrow> EventTypes \<Rightarrow> EventEmitter
     \<Rightarrow> (thrown + IRegisteredAction) \<times> EventEmitter" where
  "createSubscription zoweDir now name evType ee =
     (let dir = EventUtils_getEventDir evType (ee_appName ee) in
      case ensureEventsDirExists (ee_fs ee) (path_join [zoweDir, ''.events'']) of
        Inl err \<Rightarrow> (Inl err, ee)
      | Inr f1 \<Rightarrow>
         (case ensureEventsDirExists f1 (path_join [zoweDir, dir]) of
            Inl err \<Rightarrow> (Inl err, ee\<lparr>ee_fs := f1\<rparr>)
          | Inr f2 \<Rightarrow>
             (case ensureEventFileExists f2 (path_join [zoweDir, dir, name]) of
                Inl err \<Rightarrow> (Inl err, ee\<lparr>ee_fs := f2\<rparr>)
              | Inr f3 \<Rightarrow>
                 (Inr (Close_unsubscribe name),
                  ee\<lparr>ee_fs := f3,
                     heap := (heap ee)(next_ref ee \<mapsto>
                       \<lparr>eventTime = now, eventName = name, eventType = evType,
                        ev_appName = ee_appName ee,
                        filePath = path_join [zoweDir, dir, name],
                        ev_subscriptions = []\<rparr>),
                     next_ref := Suc (next_ref ee),
                     subscribedEvents := (subscribedEvents ee)(name \<mapsto> next_ref ee)\<rparr>))))"

text \<open>
  \<^verbatim>\<open>EventUtils.setupWatcher\<close>: the event is looked up (a missing one makes
  \<^verbatim>\<open>event.filePath\<close> throw), its file is watched (\<^verbatim>\<open>fs.watch\<close> throws for a path
  that does not exist) and the watcher is pushed to the event's subscriptions.
\<close>

definition EventUtils_setupWatcher ::
  "string \<Rightarrow> callbacks_arg \<Rightarrow> EventEmitter \<Rightarrow> (thrown + nat) \<times> EventEmitter" where
  "EventUtils_setupWatcher name callbacks ee =
     (case subscribedEvents ee name of
        None \<Rightarrow> (Inl (Js TypeError), ee)
      | Some r \<Rightarrow>
         (case heap ee r of
            None \<Rightarrow> (Inl (Js TypeError), ee)
          | Some event \<Rightarrow>
              if \<not> existsSync (ee_fs ee) (filePath event) then (Inl (Fs ENOENT), ee)
              else
                (Inr (length (ee_watchers ee)),
                 ee\<lparr>ee_watchers := ee_watchers ee
                      @ [\<lparr>ew_name = name, ew_event = r, ew_callbacks = callbacks,
                          ew_closed = False\<rparr>],
                    heap := (heap ee)(r \<mapsto>
                      event\<lparr>ev_subscriptions :=
                        ev_subscriptions event @ [length (ee_watchers ee)]\<rparr>)\<rparr>)))"

fun callbacks_called :: "callbacks_arg \<Rightarrow> callback list" where
  "callbacks_called (Many cbs) = cbs"
| "callbacks_called (One cb) = [cb]"

text \<open>
  The listener that \<^verbatim>\<open>EventUtils.setupWatcher\<close> gives to \<^verbatim>\<open>fs.watch\<close>: it compares
  the time delivered last with \<^verbatim>\<open>event.eventTime\<close>, the field of the object in
  memory. The file is not read.
\<close>

definition ee_watch_listener ::
  "string \<Rightarrow> nat \<Rightarrow> callbacks_arg \<Rightarrow> EventEmitter \<Rightarrow> thrown option \<times> EventEmitter" where
  "ee_watch_listener name r callbacks ee =
     (case heap ee r of
        None \<Rightarrow> (Some (Js TypeError), ee)
      | Some event \<Rightarrow>
          if ee_eventTimes ee name \<noteq> Some (eventTime event)
          then (None, ee\<lparr>ee_invoked := ee_invoked ee @ callbacks_called callbacks,
                          ee_eventTimes := (ee_eventTimes ee)(name \<mapsto> eventTime event)\<rparr>)
          else (None, ee))"

definition ee_notify :: "nat \<Rightarrow> EventEmitter \<Rightarrow> thrown option \<times> EventEmitter" where
  "ee_notify w ee =
     (if w < length (ee_watchers ee) \<and> \<not> ew_closed (ee_watchers ee ! w)
      then ee_watch_listener (ew_name (ee_watchers ee ! w)) (ew_event (ee_watchers ee ! w))
             (ew_callbacks (ee_watchers ee ! w)) ee
      else (None, ee))"

text \<open>
  An emission as a subscriber sees it: some process overwrites the event file
  (\<^verbatim>\<open>EventUtils.writeEvent\<close> is one \<^verbatim>\<open>fs.writeFileSync\<close> of the serialised event).
\<close>

definition file_written :: "string \<Rightarrow> string \<Rightarrow> EventEmitter \<Rightarrow> EventEmitter" where
  "file_written path contents ee = ee\<lparr>ee_fs := (ee_fs ee)(path \<mapsto> File contents)\<rparr>"

definition new_EventEmitter :: "string \<Rightarrow> filesystem \<Rightarrow> EventEmitter" where
  "new_EventEmitter name f =
     \<lparr>ee_appName = name, subscribedEvents = (\<lambda>_. None), heap = (\<lambda>_. None), next_ref = 0,
      ee_eventTimes = (\<lambda>_. None), ee_fs = f, ee_watchers = [], ee_invoked = []\<rparr>"

subsection \<open>Example hosts and file systems\<close>

text \<open>
  A home directory \<open>/home/u\<close> with the command line tool's home \<open>/home/u/.zowe\<close> in it,
  and two protected event names. The text of an event is reduced to its time, which is
  what the listener reads back from it.
\<close>

definition f0 :: filesystem where
  "f0 = (\<lambda>_. None)(''/home'' \<mapsto> Dir, ''/home/u'' \<mapsto> Dir, ''/home/u/.zowe'' \<mapsto> Dir)"

definition H0 :: host where
  "H0 = \<lparr>cliHome = ''/home/u/.zowe'', homedir = ''/home/u'',
     ImperativeUserEvents = [''onVaultChanged''],
     ImperativeSharedEvents = [''onCredentialManagerChanged''],
     event_text = (\<lambda>name evType isUser now loc. now),
     json_time = (\<lambda>contents. Some (Str contents))\<rparr>"

text \<open>
  The emitter of the application \<open>myApp\<close> after \<^verbatim>\<open>initialize\<close>, and the
  \<^verbatim>\<open>EventEmitter\<close> of the same application, both on the example file system.
\<close>

definition emitter1 :: ImperativeEventEmitter where
  "emitter1 = snd (initialize (Some ''myApp'') (new_emitter f0))"

definition ee0 :: EventEmitter where
  "ee0 = new_EventEmitter ''myApp'' f0"

text \<open>
  Two runs. On the emitter: the callback \<open>7\<close> subscribes to \<open>myEvent\<close>, the event is
  emitted at time \<open>t1\<close>, and the watcher is notified. On the \<^verbatim>\<open>EventEmitter\<close>: a
  subscription to \<open>myEvent\<close> is created at time \<open>t0\<close> and watched with the callback
  \<open>7\<close>.
\<close>

definition subscribed1 :: ImperativeEventEmitter where
  "subscribed1 = snd (subscribe H0 ''myEvent'' 7 emitter1)"

definition delivered1 :: ImperativeEventEmitter where
  "delivered1 = snd (notify H0 0 (snd (emitCustomEvent H0 ''t1'' ''myEvent'' subscribed1)))"

definition ee_watched :: EventEmitter where
  "ee_watched =
     snd (EventUtils_setupWatcher ''myEvent'' (Many [7])
       (snd (createSubscription ''/home/u/.zowe'' ''t0'' ''myEvent'' CustomSharedEvents ee0)))"

section \<open>Properties of the daemon client\<close>

subsection \<open>Decoding a chunk\<close>

lemma utf8_decode_ascii:
  "list_all (\<lambda>b. b < 128) a \<Longrightarrow>
     utf8_decode 0 0 0x80 0xBF (a @ r) = a @ utf8_decode 0 0 0x80 0xBF r"
  by (induction a) simp_all

lemma utf16_ascii: "list_all (\<lambda>b. b < 128) a \<Longrightarrow> concat (map utf16 a) = a"
  by (induction a) (simp_all add: utf16_def)

lemma toString_ascii:
  assumes "list_all (\<lambda>c. (of_char c :: nat) < 128) a"
  shows "toString (a @ r) = map of_char a @ toString r"
proof -
  have a: "list_all (\<lambda>b. b < 128) (map of_char a :: nat list)"
    using assms by (simp add: list_all_iff)
  have "utf8_decode 0 0 0x80 0xBF (map of_char (a @ r))
      = map of_char a @ utf8_decode 0 0 0x80 0xBF (map of_char r)"
    using utf8_decode_ascii [OF a] by simp
  then have "toString (a @ r)
      = concat (map utf16 (map of_char a)) @ toString r"
    by (simp only: toString_def map_append concat_append)
  then show ?thesis
    by (simp only: utf16_ascii [OF a])
qed

lemma indexOf_first:
  assumes "list_all (\<lambda>b. b \<noteq> e) a" and "e \<noteq> k"
  shows "indexOf (a @ k # e # r) [k, e] = Some (length a)"
  using assms
proof (induction a)
  case Nil
  then show ?case by simp
next
  case (Cons x xs)
  then show ?case by (cases xs) auto
qed

lemma toString_request:
  assumes "of_char ec < (128::nat)"
    and "list_all (\<lambda>c. of_char c < (128::nat) \<and> c \<noteq> ec) j0"
  shows "toString (j0 @ CHR ''}'' # ec # p0) = map of_char j0 @ 125 # of_char ec # toString p0"
proof -
  have "list_all (\<lambda>c. (of_char c :: nat) < 128) (j0 @ ''}'' @ [ec])"
    using assms by (simp add: list_all_iff)
  from toString_ascii [OF this, of p0] show ?thesis by simp
qed

lemma jsonEndIdx_request:
  assumes "EOW_DELIMITER P = [of_char ec]" and "of_char ec < (128::nat)"
    and "ec \<noteq> CHR ''}''"
    and "list_all (\<lambda>c. of_char c < (128::nat) \<and> c \<noteq> ec) j0"
  shows "jsonEndIdx P (j0 @ CHR ''}'' # ec # p0) = Some (length j0)"
proof -
  have ne: "(of_char ec :: nat) \<noteq> 125"
  proof
    assume "(of_char ec :: nat) = 125"
    then have "(of_char ec :: nat) = of_char CHR ''}''" by simp
    then have "ec = CHR ''}''" by (simp only: of_char_eq_iff)
    with assms(3) show False by simp
  qed
  have "list_all (\<lambda>b. b \<noteq> (of_char ec :: nat)) (map of_char j0)"
    using assms(4) by (simp add: list_all_iff)
  from indexOf_first [OF this ne, of "toString p0"] show ?thesis
    by (simp add: jsonEndIdx_def toString_request [OF assms(2,4)] assms(1) js_def)
qed

text \<open>
  The first read of a well-framed request: the text before the delimiter is parsed, the
  bytes after it are the first slice of the payload.
\<close>

lemma first_chunk:
  assumes "framed P s j0 ec req"
  shows "on_data P s (j0 @ CHR ''}'' # ec # p0) = writeToStdin p0 (stdinLength req) req s"
proof -
  let ?d = "j0 @ CHR ''}'' # ec # p0"
  have f: "EOW_DELIMITER P = [of_char ec]" "of_char ec < (128::nat)" "ec \<noteq> CHR ''}''"
    "list_all (\<lambda>c. of_char c < (128::nat) \<and> c \<noteq> ec) j0"
    using assms by (simp_all add: framed_def)
  have idx: "jsonEndIdx P ?d = Some (length j0)"
    by (rule jsonEndIdx_request [OF f])
  have jt: "jsonText P ?d = js (j0 @ ''}'')"
    by (simp add: jsonText_def idx toString_request [OF f(2,4)] js_def)
  have sd: "stdinData P ?d = Some p0"
    by (simp add: stdinData_def idx)
  show ?thesis
    using assms by (simp add: on_data_def data_def jt sd framed_def)
qed

subsection \<open>The stdin relay\<close>

text \<open>
  Continuation chunks that all arrive while the counter is positive are pushed whole, one
  after the other; the chunk that brings the counter to zero or below ends stdin and
  resumes the dispatch.
\<close>

lemma continuation:
  assumes "listener s = Some req" and "pendingStdinLength s = Num r" and "0 < r"
    and "pending_all r ps"
  shows "reads P ps s =
     (let t = r - int (length (concat ps));
          s1 = s\<lparr>stdin_pushed := stdin_pushed s @ ps, pendingStdinLength := Num t\<rparr>
      in if t \<le> 0 then dispatch req (s1\<lparr>listener := None, stdin_ended := True\<rparr>) else s1)"
  using assms
proof (induction ps arbitrary: s r)
  case Nil
  then show ?case by (simp add: reads_def)
next
  case (Cons p ps)
  let ?s1 = "s\<lparr>stdin_pushed := stdin_pushed s @ [p],
                pendingStdinLength := Num (r - int (length p))\<rparr>"
  have step: "on_data P s p =
      (if r - int (length p) \<le> 0
       then dispatch req (?s1\<lparr>listener := None, stdin_ended := True\<rparr>) else ?s1)"
    using Cons.prems by (simp add: on_data_def data_def stdin_listener_def)
  show ?case
  proof (cases "r - int (length p) \<le> 0")
    case True
    with Cons.prems have "ps = []" by (cases ps) simp_all
    with True step show ?thesis by (simp add: reads_def)
  next
    case False
    have "reads P ps ?s1 =
      (let t = (r - int (length p)) - int (length (concat ps));
          s1 = ?s1\<lparr>stdin_pushed := stdin_pushed ?s1 @ ps, pendingStdinLength := Num t\<rparr>
      in if t \<le> 0 then dispatch req (s1\<lparr>listener := None, stdin_ended := True\<rparr>) else s1)"
      using Cons.prems False by (intro Cons.IH) simp_all
    moreover have "reads P (p # ps) s = reads P ps ?s1"
      using False step by (simp add: reads_def)
    ultimately show ?thesis by (simp add: Let_def algebra_simps)
  qed
qed

lemma relay:
  assumes fr: "framed P s j0 ec req" and len: "stdinLength req = Some L"
    and pend: "pending_all (L - int (length p0)) ps"
  shows "reads P ((j0 @ CHR ''}'' # ec # p0) # ps) s =
     (let t = L - int (length (concat (p0 # ps)));
          s1 = s\<lparr>isTTY := False, stdin_pushed := p0 # ps, stdin_ended := False,
                 pendingStdinLength := Num t\<rparr>
      in if t \<le> 0 then dispatch req (s1\<lparr>listener := None, stdin_ended := True\<rparr>)
         else s1\<lparr>listener := Some req\<rparr>)"
proof (cases "L - int (length p0) \<le> 0")
  case True
  with pend have ps: "ps = []" by (cases ps) simp_all
  have none: "listener s = None" using fr by (simp add: framed_def)
  have same: "s\<lparr>isTTY := False, stdin_pushed := [p0], stdin_ended := False,
           pendingStdinLength := Num (L - int (length p0)), stdin_ended := True\<rparr>
      = s\<lparr>isTTY := False, stdin_pushed := [p0], stdin_ended := False,
           pendingStdinLength := Num (L - int (length p0)),
           listener := None, stdin_ended := True\<rparr>"
    using none by (intro DaemonClient.equality) simp_all
  have "reads P [j0 @ CHR ''}'' # ec # p0] s = writeToStdin p0 (Some L) req s"
    using first_chunk [OF fr, of p0] len by (simp add: reads_def)
  also have "\<dots> = dispatch req
      (s\<lparr>isTTY := False, stdin_pushed := [p0], stdin_ended := False,
         pendingStdinLength := Num (L - int (length p0)), stdin_ended := True\<rparr>)"
    using True by (simp add: writeToStdin_def)
  finally have "reads P [j0 @ CHR ''}'' # ec # p0] s = dispatch req
      (s\<lparr>isTTY := False, stdin_pushed := [p0], stdin_ended := False,
         pendingStdinLength := Num (L - int (length p0)),
         listener := None, stdin_ended := True\<rparr>)"
    by (simp only: same)
  then show ?thesis using True ps by (simp add: Let_def)
next
  case False
  let ?s1 = "s\<lparr>isTTY := False, stdin_pushed := [p0], stdin_ended := False,
       pendingStdinLength := Num (L - int (length p0)), listener := Some req\<rparr>"
  have one: "on_data P s (j0 @ CHR ''}'' # ec # p0) = ?s1"
    using first_chunk [OF fr, of p0] len False by (simp add: writeToStdin_def)
  have "reads P ps ?s1 =
     (let t = (L - int (length p0)) - int (length (concat ps));
          s1 = ?s1\<lparr>stdin_pushed := stdin_pushed ?s1 @ ps, pendingStdinLength := Num t\<rparr>
      in if t \<le> 0 then dispatch req (s1\<lparr>listener := None, stdin_ended := True\<rparr>) else s1)"
    using False pend by (intro continuation) simp_all
  moreover have "reads P ((j0 @ CHR ''}'' # ec # p0) # ps) s = reads P ps ?s1"
    using one by (simp add: reads_def)
  ultimately show ?thesis by (simp add: Let_def algebra_simps)
qed

lemma pending_all_partition:
  "list_all (\<lambda>p. p \<noteq> []) ps \<Longrightarrow> r = int (length (concat ps)) \<Longrightarrow> pending_all r ps"
proof (induction ps arbitrary: r)
  case Nil
  then show ?case by simp
next
  case (Cons p ps)
  then show ?case by (cases p) simp_all
qed

lemma stdin_pushed_dispatch: "stdin_pushed (dispatch j s) = stdin_pushed s"
  by (simp add: dispatch_def split: option.splits)

lemma stdin_ended_dispatch: "stdin_ended (dispatch j s) = stdin_ended s"
  by (simp add: dispatch_def split: option.splits)

lemma pendingStdinLength_dispatch: "pendingStdinLength (dispatch j s) = pendingStdinLength s"
  by (simp add: dispatch_def split: option.splits)

text \<open>
  When the JSON text of the request is ASCII, the relay delivers the payload exactly,
  however the payload is split: the first slice \<open>p0\<close> comes with the request, the later
  reads \<open>ps\<close> are not empty.
\<close>

lemma stdin_relay_ascii:
  assumes "framed P s j0 ec req"
    and "stdinLength req = Some (int (length payload))"
    and "concat (p0 # ps) = payload" and "list_all (\<lambda>p. p \<noteq> []) ps"
  shows "stdin_bytes (reads P ((j0 @ ''}'' @ [ec] @ p0) # ps) s) = payload
       \<and> stdin_ended (reads P ((j0 @ ''}'' @ [ec] @ p0) # ps) s)
       \<and> pendingStdinLength (reads P ((j0 @ ''}'' @ [ec] @ p0) # ps) s) = Num 0"
proof -
  have "int (length payload) - int (length p0) = int (length (concat ps))"
    using assms(3) by auto
  then have "pending_all (int (length payload) - int (length p0)) ps"
    using pending_all_partition [OF assms(4)] by simp
  from relay [OF assms(1,2) this]
  have "reads P ((j0 @ CHR ''}'' # ec # p0) # ps) s =
      dispatch req (s\<lparr>isTTY := False, stdin_pushed := p0 # ps, stdin_ended := False,
         pendingStdinLength := Num 0, listener := None, stdin_ended := True\<rparr>)"
    using assms(3) by (auto simp: Let_def)
  then show ?thesis
    using assms(3)
    by (simp add: stdin_bytes_def stdin_pushed_dispatch stdin_ended_dispatch
        pendingStdinLength_dispatch)
qed

subsection \<open>Rejection and the server\<close>

lemma no_user_msg_nonempty: "no_user_msg \<noteq> []"
  by (simp add: no_user_msg_def)

lemma other_user_msg_nonempty: "other_user_msg u \<noteq> []"
  by (simp add: other_user_msg_def)

lemma reject_eq: "reject msg s = s\<lparr>written := written s @ [Created msg 1], ended := True\<rparr>"
  by (simp add: reject_def)

lemma data_rejects:
  assumes "\<not> gt0 (pendingStdinLength s)"
    and "JSON_parse P (jsonText P d) = Some req"
    and "requestUser P req \<noteq> Some (mOwner s) \<or> requestUser P req = Some []"
  shows "data P d s =
     reject (case requestUser P req of
               None \<Rightarrow> no_user_msg
             | Some u \<Rightarrow> if u = [] then no_user_msg else other_user_msg u) s"
  using assms by (auto simp: data_def split: option.splits)

lemma mServer_dispatch: "mServer (dispatch j s) = mServer s"
  by (simp add: dispatch_def split: option.splits)

lemma mServer_stdin_listener: "mServer (stdin_listener d j s) = mServer s"
  by (simp add: stdin_listener_def Let_def mServer_dispatch)

lemma mServer_writeToStdin: "mServer (writeToStdin b n j s) = mServer s"
  by (simp add: writeToStdin_def Let_def mServer_dispatch)

lemma mServer_reject: "mServer (reject m s) = mServer s"
  by (simp add: reject_def)

lemma data_shutdown:
  assumes "\<not> gt0 (pendingStdinLength s)"
    and "JSON_parse P (jsonText P d) = Some req"
    and "requestUser P req = Some (mOwner s)" and "mOwner s \<noteq> []"
    and "stdin req = Some CTRL_C_CHAR" and "mServer s \<noteq> None"
  shows "data P d s = shutdown s"
  using assms by (simp add: data_def)

lemma data_accepts:
  assumes "\<not> gt0 (pendingStdinLength s)"
    and "JSON_parse P (jsonText P d) = Some req"
    and "requestUser P req = Some (mOwner s)" and "mOwner s \<noteq> []"
    and "stdin req = None" and "stdinData P d = Some b"
  shows "data P d s = writeToStdin b (stdinLength req) req s"
  using assms by (simp add: data_def)

subsection \<open>The example requests, decoded\<close>

lemma P0_delimiter: "EOW_DELIMITER P0 = [12]"
  by (simp add: P0_def)

lemma decode_mallory:
  "jsonText P0 (interrupt_json ''bWFsbG9yeQ=='' @ [CHR 0x0C]) = js (interrupt_json ''bWFsbG9yeQ=='')"
  by (simp add: jsonText_def jsonEndIdx_def P0_def interrupt_json_def toString_def utf16_def
      js_def)

lemma decode_owner:
  "jsonText P0 (interrupt_json ''em93ZQ=='' @ [CHR 0x0C]) = js (interrupt_json ''em93ZQ=='')"
  by (simp add: jsonText_def jsonEndIdx_def P0_def interrupt_json_def toString_def utf16_def
      js_def)

lemma decode_anonymous:
  "jsonText P0 (anonymous_interrupt_json @ [CHR 0x0C]) = js anonymous_interrupt_json"
  by (simp add: jsonText_def jsonEndIdx_def P0_def anonymous_interrupt_json_def toString_def
      utf16_def js_def)

lemma decode_reply: "jsonText P0 (reply_json @ [CHR 0x0C]) = js reply_json"
  by (simp add: jsonText_def jsonEndIdx_def P0_def reply_json_def toString_def utf16_def
      js_def)

lemma parse_mallory:
  "JSON_parse P0 (js (interrupt_json ''bWFsbG9yeQ=='')) = Some (interrupt_request ''bWFsbG9yeQ=='')"
  by (simp add: P0_def interrupt_json_def js_def)

lemma parse_owner:
  "JSON_parse P0 (js (interrupt_json ''em93ZQ=='')) = Some (interrupt_request ''em93ZQ=='')"
  by (simp add: P0_def interrupt_json_def js_def)

lemma parse_anonymous:
  "JSON_parse P0 (js anonymous_interrupt_json) = Some anonymous_interrupt_request"
  by (simp add: P0_def interrupt_json_def anonymous_interrupt_json_def js_def)

lemma parse_reply: "JSON_parse P0 (js reply_json) = Some reply_request"
  by (simp add: P0_def interrupt_json_def anonymous_interrupt_json_def reply_json_def js_def)

lemma user_mallory: "requestUser P0 (interrupt_request ''bWFsbG9yeQ=='') = Some (js ''mallory'')"
  by (simp add: requestUser_def interrupt_request_def P0_def toString_def utf16_def js_def)

lemma user_owner: "requestUser P0 (interrupt_request ''em93ZQ=='') = Some (js ''zowe'')"
  by (simp add: requestUser_def interrupt_request_def P0_def toString_def utf16_def js_def)

lemma user_reply: "requestUser P0 reply_request = Some (js ''zowe'')"
  by (simp add: requestUser_def reply_request_def P0_def toString_def utf16_def js_def)

lemma s0_fields:
  "pendingStdinLength s0 = Num 0" "mOwner s0 = js ''zowe''" "mServer s0 = Some True"
  "written s0 = []" "listener s0 = None" "parsed s0 = []" "ended s0 = False"
  by (simp_all add: s0_def new_DaemonClient_def)

subsection \<open>Rejection, interrupt, stray replies and overrun\<close>

text \<open>
  C2. A chunk that \<^verbatim>\<open>data\<close> decodes as a request (the session is not waiting for
  payload bytes and the text parses) and whose identity is absent, cannot be decoded,
  decodes to the empty string or differs from the owner is answered with a failure
  response: a non-empty stderr message with exit code 1 is written, the connection is
  ended, and nothing else of the state changes; in particular nothing is dispatched and
  nothing is pushed to stdin.
\<close>

theorem bad_identity_rejected:
  assumes "\<not> gt0 (pendingStdinLength s)"
    and "JSON_parse P (jsonText P d) = Some req"
    and "user req = None
       \<or> (\<exists>u. user req = Some u \<and> Buffer_from_base64 P u = None)
       \<or> requestUser P req = Some []
       \<or> requestUser P req \<noteq> Some (mOwner s)"
  shows "\<exists>msg. msg \<noteq> [] \<and>
           data P d s = s\<lparr>written := written s @ [Created msg 1], ended := True\<rparr> \<and>
           parsed (data P d s) = parsed s \<and> stdin_pushed (data P d s) = stdin_pushed s"
proof -
  from assms(3)
  have bad: "requestUser P req \<noteq> Some (mOwner s) \<or> requestUser P req = Some []"
    by (auto simp: requestUser_def)
  let ?m = "case requestUser P req of None \<Rightarrow> no_user_msg
            | Some u \<Rightarrow> if u = [] then no_user_msg else other_user_msg u"
  have "?m \<noteq> []"
    by (simp add: no_user_msg_nonempty other_user_msg_nonempty split: option.splits)
  moreover have "data P d s = s\<lparr>written := written s @ [Created ?m 1], ended := True\<rparr>"
    using data_rejects [OF assms(1,2) bad] by (simp add: reject_eq)
  moreover from this have "parsed (data P d s) = parsed s"
    and "stdin_pushed (data P d s) = stdin_pushed s"
    by simp_all
  ultimately show ?thesis by blast
qed

theorem bad_identity_rejected_witness:
  "\<exists>msg. msg \<noteq> [] \<and>
     data P0 (interrupt_json ''bWFsbG9yeQ=='' @ [CHR 0x0C]) s0
       = s0\<lparr>written := written s0 @ [Created msg 1], ended := True\<rparr> \<and>
     parsed (data P0 (interrupt_json ''bWFsbG9yeQ=='' @ [CHR 0x0C]) s0) = parsed s0 \<and>
     stdin_pushed (data P0 (interrupt_json ''bWFsbG9yeQ=='' @ [CHR 0x0C]) s0) = stdin_pushed s0"
proof (rule bad_identity_rejected [where req = "interrupt_request ''bWFsbG9yeQ==''"])
  show "\<not> gt0 (pendingStdinLength s0)" by (simp add: s0_fields)
  show "JSON_parse P0 (jsonText P0 (interrupt_json ''bWFsbG9yeQ=='' @ [CHR 0x0C]))
      = Some (interrupt_request ''bWFsbG9yeQ=='')"
    by (simp only: decode_mallory parse_mallory)
  have "requestUser P0 (interrupt_request ''bWFsbG9yeQ=='') \<noteq> Some (mOwner s0)"
    by (simp add: user_mallory s0_fields js_def)
  then show "user (interrupt_request ''bWFsbG9yeQ=='') = None
       \<or> (\<exists>u. user (interrupt_request ''bWFsbG9yeQ=='') = Some u \<and> Buffer_from_base64 P0 u = None)
       \<or> requestUser P0 (interrupt_request ''bWFsbG9yeQ=='') = Some []
       \<or> requestUser P0 (interrupt_request ''bWFsbG9yeQ=='') \<noteq> Some (mOwner s0)"
    by blast
qed

text \<open>
  C4, as the code has it. The interrupt is honoured only after the identity check: a
  chunk decoded as a request whose identity is the owner's and whose \<^verbatim>\<open>stdin\<close> field is
  the Ctrl+C character, on a session whose server is listening, writes the termination
  notice, ends the connection and closes the server; nothing else changes. Whether the
  request carries an \<^verbatim>\<open>argv\<close> is not looked at.
\<close>

theorem interrupt_shuts_down:
  assumes "\<not> gt0 (pendingStdinLength s)"
    and "JSON_parse P (jsonText P d) = Some req"
    and "requestUser P req = Some (mOwner s)" and "mOwner s \<noteq> []"
    and "stdin req = Some CTRL_C_CHAR" and "mServer s = Some True"
  shows "data P d s =
     s\<lparr>written := written s @ [Text (js ''Terminating server'')], ended := True,
       mServer := Some False\<rparr>"
  using assms by (simp add: data_def shutdown_def)

theorem interrupt_shuts_down_witness:
  "data P0 (interrupt_json ''em93ZQ=='' @ [CHR 0x0C]) s0 =
     s0\<lparr>written := written s0 @ [Text (js ''Terminating server'')], ended := True,
        mServer := Some False\<rparr>"
proof (rule interrupt_shuts_down [where req = "interrupt_request ''em93ZQ==''"])
  show "\<not> gt0 (pendingStdinLength s0)" by (simp add: s0_fields)
  show "JSON_parse P0 (jsonText P0 (interrupt_json ''em93ZQ=='' @ [CHR 0x0C]))
      = Some (interrupt_request ''em93ZQ=='')"
    by (simp only: decode_owner parse_owner)
  show "requestUser P0 (interrupt_request ''em93ZQ=='') = Some (mOwner s0)"
    by (simp add: user_owner s0_fields)
  show "mOwner s0 \<noteq> []" by (simp add: s0_fields js_def)
  show "stdin (interrupt_request ''em93ZQ=='') = Some CTRL_C_CHAR"
    by (simp add: interrupt_request_def CTRL_C_CHAR_def)
  show "mServer s0 = Some True" by (simp add: s0_fields)
qed

text \<open>
  The claim as stated, for every request with the interrupt payload and no \<^verbatim>\<open>argv\<close>,
  fails at the interrupt sent by \<open>mallory\<close> to the daemon of \<open>zowe\<close>: the request is
  rejected and the server keeps listening.
\<close>

theorem interrupt_counterexample:
  "\<not> gt0 (pendingStdinLength s0) \<and> mServer s0 = Some True \<and>
   JSON_parse P0 (jsonText P0 (interrupt_json ''bWFsbG9yeQ=='' @ [CHR 0x0C]))
     = Some (interrupt_request ''bWFsbG9yeQ=='') \<and>
   stdin (interrupt_request ''bWFsbG9yeQ=='') = Some CTRL_C_CHAR \<and>
   argv (interrupt_request ''bWFsbG9yeQ=='') = None \<and>
   mServer (data P0 (interrupt_json ''bWFsbG9yeQ=='' @ [CHR 0x0C]) s0) = Some True \<and>
   written (data P0 (interrupt_json ''bWFsbG9yeQ=='' @ [CHR 0x0C]) s0)
     = [Created (other_user_msg (js ''mallory'')) 1]"
proof -
  have p: "JSON_parse P0 (jsonText P0 (interrupt_json ''bWFsbG9yeQ=='' @ [CHR 0x0C]))
     = Some (interrupt_request ''bWFsbG9yeQ=='')"
    by (simp only: decode_mallory parse_mallory)
  have n: "\<not> gt0 (pendingStdinLength s0)" by (simp add: s0_fields)
  have "requestUser P0 (interrupt_request ''bWFsbG9yeQ=='') \<noteq> Some (mOwner s0)"
    by (simp add: user_mallory s0_fields js_def)
  then have "data P0 (interrupt_json ''bWFsbG9yeQ=='' @ [CHR 0x0C]) s0
      = reject (other_user_msg (js ''mallory'')) s0"
    using data_rejects [OF n p] by (simp add: user_mallory js_def)
  then show ?thesis
    using p n
    by (simp add: reject_def s0_fields interrupt_request_def CTRL_C_CHAR_def)
qed

text \<open>
  C8. A chunk decoded as a request of the owner whose \<^verbatim>\<open>stdin\<close> field is present and
  is not the Ctrl+C character is ignored: the state of the session, the socket, the
  server, stdin and the dispatcher is what it was. (The code ignores it whatever the
  field holds and whether or not a length is declared.)
\<close>

theorem stray_reply_ignored:
  assumes "\<not> gt0 (pendingStdinLength s)"
    and "JSON_parse P (jsonText P d) = Some req"
    and "requestUser P req = Some (mOwner s)" and "mOwner s \<noteq> []"
    and "stdin req = Some c" and "c \<noteq> CTRL_C_CHAR"
  shows "data P d s = s"
  using assms by (simp add: data_def)

theorem stray_reply_ignored_witness:
  "stdin reply_request = Some (js ''y'') \<and> js ''y'' \<noteq> [] \<and> stdinLength reply_request = None \<and>
   data P0 (reply_json @ [CHR 0x0C]) s0 = s0"
proof -
  have "data P0 (reply_json @ [CHR 0x0C]) s0 = s0"
  proof (rule stray_reply_ignored [where req = reply_request and c = "js ''y''"])
    show "\<not> gt0 (pendingStdinLength s0)" by (simp add: s0_fields)
    show "JSON_parse P0 (jsonText P0 (reply_json @ [CHR 0x0C])) = Some reply_request"
      by (simp only: decode_reply parse_reply)
    show "requestUser P0 reply_request = Some (mOwner s0)"
      by (simp add: user_reply s0_fields)
    show "mOwner s0 \<noteq> []" by (simp add: s0_fields js_def)
    show "stdin reply_request = Some (js ''y'')" by (simp add: reply_request_def)
    show "js ''y'' \<noteq> CTRL_C_CHAR" by (simp add: js_def CTRL_C_CHAR_def)
  qed
  then show ?thesis by (simp add: reply_request_def js_def)
qed

text \<open>
  C9. Whatever a read of the socket brings, and whatever the session is doing, the
  server changes only when the chunk is decoded as a request whose identity is the
  owner's and whose \<^verbatim>\<open>stdin\<close> field is the Ctrl+C character. So a request with the
  interrupt payload and an absent, undecodable, empty or foreign identity leaves the
  server as it was, and (by the identity check, which comes first) is rejected with exit
  code 1.
\<close>

theorem shutdown_needs_owner:
  "(mServer (on_data P s d) \<noteq> mServer s \<longrightarrow>
      (\<exists>req. \<not> gt0 (pendingStdinLength s) \<and> JSON_parse P (jsonText P d) = Some req \<and>
         requestUser P req = Some (mOwner s) \<and> mOwner s \<noteq> [] \<and>
         stdin req = Some CTRL_C_CHAR)) \<and>
   (\<not> gt0 (pendingStdinLength s) \<and> JSON_parse P (jsonText P d) = Some req \<and>
      stdin req = Some CTRL_C_CHAR \<and>
      (requestUser P req = None \<or> requestUser P req = Some [] \<or>
       requestUser P req \<noteq> Some (mOwner s)) \<longrightarrow>
      mServer (data P d s) = mServer s \<and>
      (\<exists>msg. written (data P d s) = written s @ [Created msg 1]) \<and>
      ended (data P d s))"
proof (intro conjI impI)
  assume "mServer (on_data P s d) \<noteq> mServer s"
  then show "\<exists>req. \<not> gt0 (pendingStdinLength s) \<and> JSON_parse P (jsonText P d) = Some req \<and>
         requestUser P req = Some (mOwner s) \<and> mOwner s \<noteq> [] \<and>
         stdin req = Some CTRL_C_CHAR"
    by (auto simp: on_data_def data_def mServer_reject mServer_dispatch
        mServer_stdin_listener mServer_writeToStdin
        split: option.splits if_splits)
next
  assume a: "\<not> gt0 (pendingStdinLength s) \<and> JSON_parse P (jsonText P d) = Some req \<and>
      stdin req = Some CTRL_C_CHAR \<and>
      (requestUser P req = None \<or> requestUser P req = Some [] \<or>
       requestUser P req \<noteq> Some (mOwner s))"
  then have bad: "requestUser P req \<noteq> Some (mOwner s) \<or> requestUser P req = Some []"
    by auto
  from a have n: "\<not> gt0 (pendingStdinLength s)"
    and p: "JSON_parse P (jsonText P d) = Some req" by simp_all
  from data_rejects [OF n p bad]
  show "mServer (data P d s) = mServer s" 
    and "\<exists>msg. written (data P d s) = written s @ [Created msg 1]"
    and "ended (data P d s)"
    by (simp_all add: reject_def)
qed

theorem shutdown_needs_owner_witness:
  "(mServer (on_data P0 s0 (interrupt_json ''em93ZQ=='' @ [CHR 0x0C])) \<noteq> mServer s0 \<and>
    requestUser P0 (interrupt_request ''em93ZQ=='') = Some (mOwner s0)) \<and>
   (user anonymous_interrupt_request = None \<and>
    mServer (data P0 (anonymous_interrupt_json @ [CHR 0x0C]) s0) = Some True \<and>
    (\<exists>msg. written (data P0 (anonymous_interrupt_json @ [CHR 0x0C]) s0)
        = written s0 @ [Created msg 1]) \<and>
    ended (data P0 (anonymous_interrupt_json @ [CHR 0x0C]) s0))"
proof -
  have n: "\<not> gt0 (pendingStdinLength s0)" by (simp add: s0_fields)
  have p: "JSON_parse P0 (jsonText P0 (anonymous_interrupt_json @ [CHR 0x0C]))
      = Some anonymous_interrupt_request"
    by (simp only: decode_anonymous parse_anonymous)
  have u: "requestUser P0 anonymous_interrupt_request = None"
    by (simp add: requestUser_def anonymous_interrupt_request_def)
  have c: "stdin anonymous_interrupt_request = Some CTRL_C_CHAR"
    by (simp add: anonymous_interrupt_request_def CTRL_C_CHAR_def)
  have po: "JSON_parse P0 (jsonText P0 (interrupt_json ''em93ZQ=='' @ [CHR 0x0C]))
      = Some (interrupt_request ''em93ZQ=='')"
    by (simp only: decode_owner parse_owner)
  have "data P0 (interrupt_json ''em93ZQ=='' @ [CHR 0x0C]) s0 = shutdown s0"
  proof (rule data_shutdown [OF n po])
    show "requestUser P0 (interrupt_request ''em93ZQ=='') = Some (mOwner s0)"
      by (simp add: user_owner s0_fields)
    show "mOwner s0 \<noteq> []" by (simp add: s0_fields js_def)
    show "stdin (interrupt_request ''em93ZQ=='') = Some CTRL_C_CHAR"
      by (simp add: interrupt_request_def CTRL_C_CHAR_def)
    show "mServer s0 \<noteq> None" by (simp add: s0_fields)
  qed
  then have changed:
    "mServer (on_data P0 s0 (interrupt_json ''em93ZQ=='' @ [CHR 0x0C])) \<noteq> mServer s0"
    by (simp add: on_data_def s0_fields shutdown_def)
  from shutdown_needs_owner [of P0 s0 "anonymous_interrupt_json @ [CHR 0x0C]"
      anonymous_interrupt_request] n p u c
  have "mServer (data P0 (anonymous_interrupt_json @ [CHR 0x0C]) s0) = mServer s0 \<and>
      (\<exists>msg. written (data P0 (anonymous_interrupt_json @ [CHR 0x0C]) s0)
         = written s0 @ [Created msg 1]) \<and>
      ended (data P0 (anonymous_interrupt_json @ [CHR 0x0C]) s0)"
    by simp
  then show ?thesis
    using changed u
    by (simp add: s0_fields user_owner anonymous_interrupt_request_def)
qed

lemma framed_upload: "framed P0 s0 (upload_head ''a'') (CHR 0x0C) (upload_request (js ''a''))"
  by (simp add: framed_def P0_def s0_fields requestUser_def upload_request_def
      upload_json_def upload_head_def interrupt_json_def anonymous_interrupt_json_def
      reply_json_def toString_def utf16_def js_def)

text \<open>
  C10. A well-framed request of the owner declares \<open>L\<close> bytes; its first slice \<open>p0\<close>
  comes with it and the later reads \<open>ps\<close> each arrive while the counter is still
  positive. If together they hold more than \<open>L\<close> bytes, which is so exactly when the
  last of them holds more than what was still pending, every byte of every chunk is
  pushed to stdin: stdin is ended with more than \<open>L\<close> bytes, the counter ends below
  zero, and the command is dispatched.
\<close>

theorem stdin_overrun:
  assumes "framed P s j0 ec req" and "stdinLength req = Some L" and "argv req = Some a"
    and "pending_all (L - int (length p0)) ps"
    and "L < int (length (concat (p0 # ps)))"
  shows "stdin_pushed (reads P ((j0 @ ''}'' @ [ec] @ p0) # ps) s) = p0 # ps
       \<and> L < int (length (stdin_bytes (reads P ((j0 @ ''}'' @ [ec] @ p0) # ps) s)))
       \<and> stdin_ended (reads P ((j0 @ ''}'' @ [ec] @ p0) # ps) s)
       \<and> pendingStdinLength (reads P ((j0 @ ''}'' @ [ec] @ p0) # ps) s)
           = Num (L - int (length (concat (p0 # ps))))
       \<and> parsed (reads P ((j0 @ ''}'' @ [ec] @ p0) # ps) s) = parsed s @ [a]"
proof -
  from relay [OF assms(1,2,4)] assms(5)
  have "reads P ((j0 @ CHR ''}'' # ec # p0) # ps) s =
      dispatch req (s\<lparr>isTTY := False, stdin_pushed := p0 # ps, stdin_ended := False,
         pendingStdinLength := Num (L - int (length (concat (p0 # ps)))),
         listener := None, stdin_ended := True\<rparr>)"
    by (auto simp: Let_def)
  then show ?thesis
    using assms(3,5) by (simp add: stdin_bytes_def dispatch_def)
qed

theorem stdin_overrun_witness:
  "stdinLength (upload_request (js ''a'')) = Some 1 \<and>
   stdin_pushed (reads P0 [upload_json ''a'' @ [CHR 0x0C], ''XY''] s0) = ['''', ''XY''] \<and>
   stdin_ended (reads P0 [upload_json ''a'' @ [CHR 0x0C], ''XY''] s0) \<and>
   pendingStdinLength (reads P0 [upload_json ''a'' @ [CHR 0x0C], ''XY''] s0) = Num (- 1) \<and>
   parsed (reads P0 [upload_json ''a'' @ [CHR 0x0C], ''XY''] s0) = [[js ''a'']]"
proof -
  have "pending_all (1 - int (length '''')) [''XY'']" by simp
  moreover have "(1::int) < int (length (concat ['''', ''XY'']))" by simp
  moreover have "stdinLength (upload_request (js ''a'')) = Some 1"
    and "argv (upload_request (js ''a'')) = Some [js ''a'']"
    by (simp_all add: upload_request_def)
  ultimately show ?thesis
    using stdin_overrun [OF framed_upload, of 1 "[js ''a'']" "''''" "[''XY'']"]
    by (simp add: upload_json_def s0_fields)
qed

text \<open>
  C1 fails on the code when the JSON text of the request holds a character outside
  ASCII. \<^verbatim>\<open>jsonEndIdx\<close> is an index into the decoded string and
  \<^verbatim>\<open>data.slice(jsonEndIdx + 2)\<close> uses it as a byte offset; every two-byte character
  of the text moves the slice one byte to the left. Here the owner's request has the
  argument U+00E9, declares one byte of input and carries the byte \<open>X\<close> in the same
  read: stdin receives the delimiter and \<open>X\<close>, two bytes, and the counter ends at \<open>-1\<close>.
  For an ASCII text the claim holds (\<open>stdin_relay_ascii\<close>).
\<close>

theorem stdin_relay_multibyte_request:
  "JSON_parse P0 (jsonText P0 (upload_json e_acute @ [CHR 0x0C] @ ''X''))
     = Some (upload_request [233]) \<and>
   stdinLength (upload_request [233]) = Some 1 \<and>
   stdin_bytes (reads P0 [upload_json e_acute @ [CHR 0x0C] @ ''X''] s0) = [CHR 0x0C] @ ''X'' \<and>
   stdin_ended (reads P0 [upload_json e_acute @ [CHR 0x0C] @ ''X''] s0) \<and>
   pendingStdinLength (reads P0 [upload_json e_acute @ [CHR 0x0C] @ ''X''] s0) = Num (- 1) \<and>
   parsed (reads P0 [upload_json e_acute @ [CHR 0x0C] @ ''X''] s0) = [[[233]]]"
proof -
  let ?d = "upload_json e_acute @ [CHR 0x0C] @ ''X''"
  have jt: "jsonText P0 ?d = toString (upload_json e_acute)"
    by (simp add: jsonText_def jsonEndIdx_def P0_def upload_json_def upload_head_def
        e_acute_def toString_def utf16_def js_def)
  have sd: "stdinData P0 ?d = Some ([CHR 0x0C] @ ''X'')"
    by (simp add: stdinData_def jsonEndIdx_def P0_def upload_json_def upload_head_def
        e_acute_def toString_def utf16_def js_def)
  have p: "JSON_parse P0 (toString (upload_json e_acute)) = Some (upload_request [233])"
    by (simp add: P0_def upload_json_def upload_head_def interrupt_json_def
        anonymous_interrupt_json_def reply_json_def e_acute_def toString_def utf16_def js_def)
  have u: "requestUser P0 (upload_request [233]) = Some (js ''zowe'')"
    by (simp add: requestUser_def upload_request_def P0_def toString_def utf16_def js_def)
  have pj: "JSON_parse P0 (jsonText P0 ?d) = Some (upload_request [233])"
    by (simp only: jt p)
  have "data P0 ?d s0
      = writeToStdin ([CHR 0x0C] @ ''X'') (stdinLength (upload_request [233]))
          (upload_request [233]) s0"
  proof (rule data_accepts [OF _ pj _ _ _ sd])
    show "\<not> gt0 (pendingStdinLength s0)" by (simp add: s0_fields)
    show "requestUser P0 (upload_request [233]) = Some (mOwner s0)"
      by (simp add: u s0_fields)
    show "mOwner s0 \<noteq> []" by (simp add: s0_fields js_def)
    show "stdin (upload_request [233]) = None" by (simp add: upload_request_def)
  qed
  then have "reads P0 [?d] s0
      = dispatch (upload_request [233])
         (s0\<lparr>isTTY := False, stdin_pushed := [[CHR 0x0C] @ ''X''],
             pendingStdinLength := Num (- 1), stdin_ended := True\<rparr>)"
    by (simp add: reads_def on_data_def s0_fields writeToStdin_def upload_request_def)
  then show ?thesis
    using pj by (simp add: stdin_bytes_def dispatch_def upload_request_def s0_fields)
qed

section \<open>Properties of paths\<close>

lemma split_slash_nonempty: "split_slash s \<noteq> []"
  by (induction s) (auto split: list.splits)

lemma split_slash_segment:
  "list_all (\<lambda>c. c \<noteq> CHR ''/'') s \<Longrightarrow> split_slash (s @ CHR ''/'' # rest) = s # split_slash rest"
  by (induction s) simp_all

lemma split_slash_last: "list_all (\<lambda>c. c \<noteq> CHR ''/'') s \<Longrightarrow> split_slash s = [s]"
  by (induction s) simp_all

lemma split_slash_abs_path:
  assumes "list_all clean segs" and "list_all (\<lambda>c. c \<noteq> CHR ''/'') s"
  shows "split_slash (s @ abs_path segs) = s # segs"
  using assms
proof (induction segs arbitrary: s)
  case Nil
  then show ?case by (simp add: split_slash_last)
next
  case (Cons seg segs)
  from Cons.prems have "clean seg" and "list_all clean segs" by simp_all
  then have "list_all (\<lambda>c. c \<noteq> CHR ''/'') seg" and "list_all clean segs"
    by (simp_all add: clean_def)
  with Cons.IH [of seg] have "split_slash (seg @ abs_path segs) = seg # segs" by simp
  with Cons.prems(2) show ?case by (simp add: split_slash_segment)
qed

lemma normalize_segs_clean:
  "list_all clean segs \<Longrightarrow> normalize_segs up res segs = rev res @ segs"
  by (induction segs arbitrary: res) (simp_all add: clean_def)

lemma join_slash_abs_path: "join_slash (seg # segs) = seg @ abs_path segs"
  by (induction segs arbitrary: seg) simp_all

lemma abs_path_append: "abs_path (a @ b) = abs_path a @ abs_path b"
  by (induction a) simp_all

lemma last_abs_path:
  "list_all clean segs \<Longrightarrow> segs \<noteq> [] \<Longrightarrow> last (abs_path segs) \<noteq> CHR ''/''"
proof (induction segs)
  case Nil
  then show ?case by simp
next
  case (Cons seg segs)
  show ?case
  proof (cases segs)
    case Nil
    from Cons.prems have "seg \<noteq> []" and "list_all (\<lambda>c. c \<noteq> CHR ''/'') seg"
      by (simp_all add: clean_def)
    then have "last seg \<noteq> CHR ''/''" by (auto simp: list_all_iff)
    with Nil \<open>seg \<noteq> []\<close> show ?thesis by simp
  next
    case (Cons b bs)
    with Cons.IH Cons.prems show ?thesis by simp
  qed
qed

lemma path_normalize_abs_path:
  assumes "list_all clean segs" and "segs \<noteq> []"
  shows "path_normalize (abs_path segs) = abs_path segs"
proof -
  obtain seg rest where segs: "segs = seg # rest" using assms(2) by (cases segs) auto
  have ne: "abs_path segs \<noteq> []" and hd: "hd (abs_path segs) = CHR ''/''"
    by (simp_all add: segs)
  have sp: "split_slash (abs_path segs) = [] # segs"
    using split_slash_abs_path [OF assms(1), of "[]"] by simp
  have ns: "normalize_segs False [] segs = segs"
    using normalize_segs_clean [OF assms(1), of False "[]"] by simp
  have "clean seg" using assms(1) by (simp add: segs)
  then have "seg \<noteq> []" by (simp add: clean_def)
  then have js: "join_slash segs \<noteq> []" by (simp add: segs join_slash_abs_path)
  have "CHR ''/'' # join_slash segs = abs_path segs"
    by (simp add: segs join_slash_abs_path)
  then show ?thesis
    using ne hd last_abs_path [OF assms] js
    by (simp add: path_normalize_def sp ns Let_def)
qed

lemma path_normalize_relative:
  assumes "list_all clean segs" and "segs \<noteq> []"
  shows "path_normalize (join_slash segs) = join_slash segs"
proof -
  obtain seg rest where segs: "segs = seg # rest" using assms(2) by (cases segs) auto
  have "clean seg" and rest: "list_all clean rest"
    using assms(1) by (simp_all add: segs)
  then have seg: "seg \<noteq> []" "list_all (\<lambda>c. c \<noteq> CHR ''/'') seg"
    by (simp_all add: clean_def)
  have js: "join_slash segs = seg @ abs_path rest" by (simp add: segs join_slash_abs_path)
  have hd: "hd (join_slash segs) \<noteq> CHR ''/''"
    using seg by (cases seg) (simp_all add: js)
  have last: "last (join_slash segs) \<noteq> CHR ''/''"
  proof (cases rest)
    case Nil
    with seg show ?thesis by (auto simp: js list_all_iff)
  next
    case (Cons b bs)
    with last_abs_path [OF rest] show ?thesis by (simp add: js)
  qed
  have sp: "split_slash (seg @ abs_path rest) = segs"
    using split_slash_abs_path [OF rest seg(2)] by (simp add: segs)
  have ns: "normalize_segs True [] segs = segs"
    using normalize_segs_clean [OF assms(1), of True "[]"] by simp
  show ?thesis
    using seg(1) hd last by (simp add: path_normalize_def sp ns Let_def js)
qed

text \<open>
  Joining an absolute path of clean names with relative paths of clean names appends the
  names.
\<close>

lemma join_slash_paths:
  "a \<noteq> [] \<Longrightarrow> list_all (\<lambda>g. g \<noteq> []) gs \<Longrightarrow>
     join_slash (abs_path a # map join_slash gs) = abs_path (a @ concat gs)"
proof (induction gs arbitrary: a)
  case Nil
  then show ?case by simp
next
  case (Cons g gs)
  from Cons.prems obtain x xs where g: "g = x # xs" by (cases g) auto
  have "join_slash (abs_path a # join_slash g # map join_slash gs)
      = abs_path a @ ''/'' @ join_slash (join_slash g # map join_slash gs)"
    by simp
  also have "join_slash (join_slash g # map join_slash gs) = join_slash g @ abs_path (concat gs)"
  proof (cases gs)
    case Nil
    then show ?thesis by simp
  next
    case (Cons h hs)
    have "join_slash (abs_path [join_slash g] # map join_slash gs)
        = abs_path ([join_slash g] @ concat gs)"
      using Cons.prems Cons.IH [of "[join_slash g]"] by simp
    then show ?thesis using Cons by simp
  qed
  finally show ?case by (simp add: g join_slash_abs_path abs_path_append)
qed

lemma path_join_abs:
  assumes "list_all clean a" and "a \<noteq> []"
    and "list_all (\<lambda>g. g \<noteq> [] \<and> list_all clean g) gs"
  shows "path_join (abs_path a # map join_slash gs) = abs_path (a @ concat gs)"
proof -
  obtain x xs where a: "a = x # xs" using assms(2) by (cases a) auto
  have ne: "list_all (\<lambda>g. g \<noteq> []) gs"
    using assms(3) by (simp add: list_all_iff)
  have each: "\<And>g. g \<noteq> [] \<Longrightarrow> list_all clean g \<Longrightarrow> join_slash g \<noteq> []"
  proof -
    fix g :: "string list"
    assume "g \<noteq> []" and c: "list_all clean g"
    then obtain y ys where g: "g = y # ys" by (cases g) auto
    with c have "clean y" by simp
    then have "y \<noteq> []" by (simp add: clean_def)
    then show "join_slash g \<noteq> []" by (simp add: g join_slash_abs_path)
  qed
  have "filter (\<lambda>p. p \<noteq> []) (map join_slash gs) = map join_slash gs"
    using assms(3) each by (induction gs) auto
  then have keep: "filter (\<lambda>p. p \<noteq> []) (abs_path a # map join_slash gs)
      = abs_path a # map join_slash gs"
    by (simp add: a)
  have cl: "list_all clean (a @ concat gs)"
    using assms(1,3) by (induction gs) auto
  have "a @ concat gs \<noteq> []" using assms(2) by simp
  from path_normalize_abs_path [OF cl this] show ?thesis
    unfolding path_join_def keep
    by (simp add: join_slash_paths [OF assms(2) ne])
qed

lemma path_join_relative:
  assumes "list_all clean segs" and "segs \<noteq> []"
  shows "path_join segs = join_slash segs"
proof -
  have "filter (\<lambda>p. p \<noteq> []) segs = segs"
    using assms(1) by (induction segs) (auto simp: clean_def)
  with path_normalize_relative [OF assms] assms(2) show ?thesis
    by (simp add: path_join_def)
qed

lemma clean_events: "clean ''.events''"
  by (simp add: clean_def)

lemma join_dir_name:
  assumes "list_all clean a" and "a \<noteq> []" and "clean name"
  shows "path_join [abs_path a, name] = abs_path a @ ''/'' @ name"
  using path_join_abs [OF assms(1,2), of "[[name]]"] assms(3)
  by (simp add: abs_path_append)

lemma join_dir_events_name:
  assumes "list_all clean a" and "a \<noteq> []" and "clean name"
  shows "path_join [abs_path a, ''.events'', name] = abs_path a @ ''/.events/'' @ name"
  using path_join_abs [OF assms(1,2), of "[[''.events''], [name]]"] assms(3) clean_events
  by (simp add: abs_path_append)

lemma join_dir_events_app_name:
  assumes "list_all clean a" and "a \<noteq> []" and "clean app" and "clean name"
  shows "path_join [abs_path a, path_join [''.events'', app], name]
     = abs_path a @ ''/.events/'' @ app @ ''/'' @ name"
proof -
  have "path_join [''.events'', app] = join_slash [''.events'', app]"
    using assms(3) clean_events by (intro path_join_relative) simp_all
  then show ?thesis
    using path_join_abs [OF assms(1,2), of "[[''.events'', app], [name]]"] assms(3,4)
      clean_events
    by (simp add: abs_path_append)
qed

section \<open>Properties of the event code\<close>

subsection \<open>Where event files are stored\<close>

lemma ensureEventsDirExists_exists:
  "ensureEventsDirExists f p = Inr f' \<Longrightarrow> f' p \<noteq> None"
  by (auto simp: ensureEventsDirExists_def existsSync_def mkdirSync_def
      split: if_splits sum.splits)

lemma ensureEventFileExists_exists:
  "ensureEventFileExists f p = Inr f' \<Longrightarrow> f' p \<noteq> None"
  by (auto simp: ensureEventFileExists_def existsSync_def writeFileSync_def
      split: if_splits sum.splits)

lemma createSubscription_event:
  assumes "createSubscription zoweDir now name evType ee = (Inr r, ee')"
  shows "subscribedEvents ee' name = Some (next_ref ee)
       \<and> heap ee' (next_ref ee) =
           Some \<lparr>eventTime = now, eventName = name, eventType = evType,
                 ev_appName = ee_appName ee,
                 filePath = path_join [zoweDir, EventUtils_getEventDir evType (ee_appName ee), name],
                 ev_subscriptions = []\<rparr>
       \<and> ee_fs ee' (path_join [zoweDir, EventUtils_getEventDir evType (ee_appName ee), name])
           \<noteq> None"
  using assms
  by (auto simp: createSubscription_def Let_def dest: ensureEventFileExists_exists
      split: sum.splits)

lemma writeEvent_file:
  assumes "writeEvent location name contents st = (Inr (), st')"
  shows "fs st' (path_join [location, name]) = Some (File contents)"
  using assms
  by (auto simp: writeEvent_def writeFileSync_def split: sum.splits if_splits)

text \<open>
  C7, as the code has it. \<open>zoweDir\<close> and the command line tool's home are absolute paths
  of clean names, and the application and the event have clean names. A subscription
  made by \<^verbatim>\<open>EventUtils.createSubscription\<close> has its file at
  \<open>zoweDir/.events/appName/eventName\<close> for the two custom event types and at
  \<open>zoweDir/.events/eventName\<close> for the others, and the file exists there. A custom event
  emitted by \<^verbatim>\<open>ImperativeEventEmitter.emitCustomEvent\<close> is written to
  \<open>cliHome/.events/eventName\<close>: that class has no directory per application.
\<close>

theorem event_file_layout:
  assumes "list_all clean a" and "a \<noteq> []" and "clean name"
  shows "(zoweDir = abs_path a \<and> clean (ee_appName ee) \<and>
          createSubscription zoweDir now name evType ee = (Inr r, ee') \<longrightarrow>
            (\<exists>ev. subscribedEvents ee' name = Some (next_ref ee) \<and>
                  heap ee' (next_ref ee) = Some ev \<and>
                  filePath ev =
                    (if evType = CustomSharedEvents \<or> evType = CustomUserEvents
                     then zoweDir @ ''/.events/'' @ ee_appName ee @ ''/'' @ name
                     else zoweDir @ ''/.events/'' @ name) \<and>
                  ee_fs ee' (filePath ev) \<noteq> None))
       \<and> (cliHome H = abs_path a \<and> emitCustomEvent H t name st = (Inr (), st') \<longrightarrow>
            fs st' (cliHome H @ ''/.events/'' @ name)
              = Some (File (event_text H (appName st) name (isUserEvent H name) t
                             (cliHome H @ ''/.events''))))"
proof (intro conjI impI)
  assume h: "zoweDir = abs_path a \<and> clean (ee_appName ee) \<and>
          createSubscription zoweDir now name evType ee = (Inr r, ee')"
  let ?p = "path_join [zoweDir, EventUtils_getEventDir evType (ee_appName ee), name]"
  have p: "?p = (if evType = CustomSharedEvents \<or> evType = CustomUserEvents
                     then zoweDir @ ''/.events/'' @ ee_appName ee @ ''/'' @ name
                     else zoweDir @ ''/.events/'' @ name)"
    using h join_dir_events_app_name [OF assms(1,2) _ assms(3), of "ee_appName ee"]
      join_dir_events_name [OF assms]
    by (simp add: EventUtils_getEventDir_def)
  from h have c: "createSubscription zoweDir now name evType ee = (Inr r, ee')" by blast
  from createSubscription_event [OF c]
  have "subscribedEvents ee' name = Some (next_ref ee)"
    and "heap ee' (next_ref ee) =
           Some \<lparr>eventTime = now, eventName = name, eventType = evType,
                 ev_appName = ee_appName ee, filePath = ?p, ev_subscriptions = []\<rparr>"
    and "ee_fs ee' ?p \<noteq> None"
    by blast+
  then show "\<exists>ev. subscribedEvents ee' name = Some (next_ref ee) \<and>
                  heap ee' (next_ref ee) = Some ev \<and>
                  filePath ev =
                    (if evType = CustomSharedEvents \<or> evType = CustomUserEvents
                     then zoweDir @ ''/.events/'' @ ee_appName ee @ ''/'' @ name
                     else zoweDir @ ''/.events/'' @ name) \<and>
                  ee_fs ee' (filePath ev) \<noteq> None"
    using p by simp
next
  assume h: "cliHome H = abs_path a \<and> emitCustomEvent H t name st = (Inr (), st')"
  have d: "getSharedEventDir H = abs_path (a @ [''.events''])"
    using h join_dir_name [OF assms(1,2) clean_events]
    by (simp add: getSharedEventDir_def abs_path_append)
  have "list_all clean (a @ [''.events''])" using assms(1) clean_events by simp
  from join_dir_name [OF this _ assms(3)]
  have j: "path_join [getSharedEventDir H, name] = abs_path a @ ''/.events/'' @ name"
    by (simp add: d abs_path_append)
  from h have "writeEvent (getSharedEventDir H) name
      (event_text H (appName st) name (isUserEvent H name) t (getSharedEventDir H)) st
        = (Inr (), st')"
    by (auto simp: emitCustomEvent_def split: if_splits)
  from writeEvent_file [OF this] show "fs st' (cliHome H @ ''/.events/'' @ name)
      = Some (File (event_text H (appName st) name (isUserEvent H name) t
                     (cliHome H @ ''/.events'')))"
    using h by (simp add: j) (simp add: d abs_path_append)
qed

lemma home_path: "''/home/u/.zowe'' = abs_path [''home'', ''u'', ''.zowe'']"
  by simp

lemma home_clean: "list_all clean [''home'', ''u'', ''.zowe'']"
  by (simp add: clean_def)

lemma paths0:
  "path_join [''/home/u/.zowe'', ''.events''] = ''/home/u/.zowe/.events''"
  "path_join [''.events'', ''myApp''] = ''.events/myApp''"
  "path_join [''/home/u/.zowe'', ''.events/myApp''] = ''/home/u/.zowe/.events/myApp''"
  "path_join [''/home/u/.zowe'', ''.events/myApp'', ''myEvent'']
     = ''/home/u/.zowe/.events/myApp/myEvent''"
  "path_join [''/home/u/.zowe/.events'', ''myEvent''] = ''/home/u/.zowe/.events/myEvent''"
  by (simp_all add: path_join_def path_normalize_def Let_def)

lemma createSubscription0:
  "fst (createSubscription ''/home/u/.zowe'' ''t0'' ''myEvent'' CustomSharedEvents
         ee0) = Inr (Close_unsubscribe ''myEvent'')"
  by (simp add: createSubscription_def EventUtils_getEventDir_def paths0 Let_def
      ensureEventsDirExists_def existsSync_def mkdirSync_def parent_exists_def
      ensureEventFileExists_def writeFileSync_def ee0_def new_EventEmitter_def f0_def)


lemma emitter1_fields:
  "initialized emitter1" "appName emitter1 = Some ''myApp''" "fs emitter1 = f0"
  "subscriptions emitter1 = (\<lambda>_. None)" "eventTimes emitter1 = (\<lambda>_. None)"
  "watchers emitter1 = []" "invoked emitter1 = []"
  by (simp_all add: emitter1_def initialize_def new_emitter_def)

lemma H0_fields:
  "cliHome H0 = ''/home/u/.zowe''" "homedir H0 = ''/home/u''"
  "isCustomEvent H0 ''myEvent''" "\<not> isUserEvent H0 ''myEvent''"
  "getSharedEventDir H0 = ''/home/u/.zowe/.events''"
  "getEventDir H0 ''myEvent'' = ''/home/u/.zowe/.events''"
  "event_text H0 name evName isUser now loc = now"
  "json_time H0 contents = Some (Str contents)"
  by (simp_all add: H0_def isCustomEvent_def isUserEvent_def isSharedEvent_def
      getSharedEventDir_def getEventDir_def paths0)

lemma emitCustomEvent0:
  "emitCustomEvent H0 ''t1'' ''myEvent'' emitter1
     = (Inr (), emitter1\<lparr>fs := f0(''/home/u/.zowe/.events'' \<mapsto> Dir,
                                    ''/home/u/.zowe/.events/myEvent'' \<mapsto> File ''t1'')\<rparr>)"
  by (simp add: emitCustomEvent_def writeEvent_def emitter1_fields H0_fields paths0
      ensureEventsDirExists_def existsSync_def mkdirSync_def parent_exists_def
      writeFileSync_def f0_def)

theorem event_file_layout_witness:
  "(\<exists>ev. subscribedEvents
           (snd (createSubscription ''/home/u/.zowe'' ''t0'' ''myEvent'' CustomSharedEvents ee0))
           ''myEvent'' = Some 0 \<and>
         heap (snd (createSubscription ''/home/u/.zowe'' ''t0'' ''myEvent'' CustomSharedEvents ee0))
           0 = Some ev \<and>
         filePath ev = ''/home/u/.zowe/.events/myApp/myEvent'' \<and>
         ee_fs (snd (createSubscription ''/home/u/.zowe'' ''t0'' ''myEvent'' CustomSharedEvents ee0))
           (filePath ev) \<noteq> None)
   \<and> fs (snd (emitCustomEvent H0 ''t1'' ''myEvent'' emitter1)) ''/home/u/.zowe/.events/myEvent''
       = Some (File ''t1'')"
proof -
  have c: "clean ''myEvent''" "clean ''myApp''" by (simp_all add: clean_def)
  have ne: "[''home'', ''u'', ''.zowe''] \<noteq> []" by simp
  have cs: "createSubscription ''/home/u/.zowe'' ''t0'' ''myEvent'' CustomSharedEvents ee0
      = (Inr (Close_unsubscribe ''myEvent''),
         snd (createSubscription ''/home/u/.zowe'' ''t0'' ''myEvent'' CustomSharedEvents ee0))"
    using createSubscription0 by (simp add: prod_eq_iff)
  have em: "emitCustomEvent H0 ''t1'' ''myEvent'' emitter1
      = (Inr (), snd (emitCustomEvent H0 ''t1'' ''myEvent'' emitter1))"
    by (simp add: emitCustomEvent0)
  from event_file_layout [OF home_clean ne c(1),
      of "''/home/u/.zowe''" ee0 "''t0''" CustomSharedEvents "Close_unsubscribe ''myEvent''"
        "snd (createSubscription ''/home/u/.zowe'' ''t0'' ''myEvent'' CustomSharedEvents ee0)"
        H0 "''t1''" emitter1 "snd (emitCustomEvent H0 ''t1'' ''myEvent'' emitter1)"]
    cs em c(2)
  show ?thesis
    by (simp add: ee0_def new_EventEmitter_def H0_fields)
qed

text \<open>
  The claim as stated, for every custom event, fails on \<^verbatim>\<open>emitCustomEvent\<close>: the
  application \<open>myApp\<close> emits the custom event \<open>myEvent\<close>, and the file is
  \<open>/home/u/.zowe/.events/myEvent\<close>; nothing exists at
  \<open>/home/u/.zowe/.events/myApp/myEvent\<close>.
\<close>

theorem event_file_layout_counterexample:
  "appName emitter1 = Some ''myApp'' \<and> isCustomEvent H0 ''myEvent'' \<and>
   fst (emitCustomEvent H0 ''t1'' ''myEvent'' emitter1) = Inr () \<and>
   fs (snd (emitCustomEvent H0 ''t1'' ''myEvent'' emitter1)) ''/home/u/.zowe/.events/myEvent''
     = Some (File ''t1'') \<and>
   fs (snd (emitCustomEvent H0 ''t1'' ''myEvent'' emitter1))
     ''/home/u/.zowe/.events/myApp/myEvent'' = None \<and>
   fs (snd (emitCustomEvent H0 ''t1'' ''myEvent'' emitter1)) ''/home/u/.zowe/.events/myApp''
     = None"
  by (simp add: emitCustomEvent0 emitter1_fields H0_fields f0_def)
subsection \<open>Initialisation\<close>

lemma subscribe_failure_is_runtime:
  assumes "initialized st" and "subscribe H evName cb st = (Inl err, st')"
  shows "runtime_failure err"
  using assms
  by (auto simp: subscribe_def setupWatcher_def Let_def ensureEventsDirExists_def
      ensureEventFileExists_def split: option.splits sum.splits if_splits prod.splits)

text \<open>
  C6. On an emitter that is initialised, \<^verbatim>\<open>initialize\<close> throws and changes nothing,
  and a call of \<^verbatim>\<open>initialize\<close> that follows another always throws. On an emitter that is not initialised, \<^verbatim>\<open>subscribe\<close>,
  \<^verbatim>\<open>unsubscribe\<close>, \<^verbatim>\<open>emitEvent\<close> and \<^verbatim>\<open>emitCustomEvent\<close> throw before they do
  anything. The two errors carry no cause, unlike every error that a failing file system
  gives: whatever \<^verbatim>\<open>subscribe\<close> throws on an initialised emitter is a failure of the
  environment and is neither of the two.
\<close>

theorem programming_errors:
  "(initialized st \<longrightarrow> initialize name st = (Inl already_initialized, st))
   \<and> initialize name' (snd (initialize name st))
       = (Inl already_initialized, snd (initialize name st))
   \<and> (\<not> initialized st \<longrightarrow>
        subscribe H evName cb st = (Inl not_initialized, st) \<and>
        unsubscribe evName st = (Inl not_initialized, st) \<and>
        emitEvent H now evName st = (Inl not_initialized, st) \<and>
        emitCustomEvent H now evName st = (Inl not_initialized, st))
   \<and> \<not> runtime_failure already_initialized \<and> \<not> runtime_failure not_initialized
   \<and> (initialized st \<and> subscribe H evName cb st = (Inl err, st') \<longrightarrow>
        runtime_failure err \<and> err \<noteq> already_initialized \<and> err \<noteq> not_initialized)"
proof -
  have a: "\<not> runtime_failure already_initialized" "\<not> runtime_failure not_initialized"
    by (simp_all add: already_initialized_def not_initialized_def)
  have "initialized st \<and> subscribe H evName cb st = (Inl err, st') \<longrightarrow>
        runtime_failure err \<and> err \<noteq> already_initialized \<and> err \<noteq> not_initialized"
    using subscribe_failure_is_runtime [of st H evName cb err st'] a by auto
  then show ?thesis
    using a
    by (simp add: initialize_def subscribe_def unsubscribe_def emitEvent_def
        emitCustomEvent_def)
qed

theorem programming_errors_witness:
  "initialize (Some ''other'') emitter1 = (Inl already_initialized, emitter1)
   \<and> fst (initialize (Some ''other'') (snd (initialize (Some ''myApp'') (new_emitter f0))))
       = Inl already_initialized
   \<and> subscribe H0 ''myEvent'' 7 (new_emitter f0) = (Inl not_initialized, new_emitter f0)
   \<and> unsubscribe ''myEvent'' (new_emitter f0) = (Inl not_initialized, new_emitter f0)
   \<and> emitEvent H0 ''t1'' ''myEvent'' (new_emitter f0) = (Inl not_initialized, new_emitter f0)
   \<and> emitCustomEvent H0 ''t1'' ''myEvent'' (new_emitter f0)
       = (Inl not_initialized, new_emitter f0)
   \<and> fst (subscribe H0 ''myEvent'' 7 (emitter1\<lparr>fs := (\<lambda>_. None)\<rparr>))
       = Inl (ImperativeError
               (''Unable to create '' @ [CHR 0x27] @ ''.events'' @ [CHR 0x27]
                  @ '' directory. Path: /home/u/.zowe/.events'') (Some ENOENT))
   \<and> runtime_failure (ImperativeError
               (''Unable to create '' @ [CHR 0x27] @ ''.events'' @ [CHR 0x27]
                  @ '' directory. Path: /home/u/.zowe/.events'') (Some ENOENT))"
proof -
  have i: "initialized emitter1" and n: "\<not> initialized (new_emitter f0)"
    by (simp_all add: emitter1_fields new_emitter_def)
  have s: "subscribe H0 ''myEvent'' 7 (emitter1\<lparr>fs := (\<lambda>_. None)\<rparr>)
      = (Inl (ImperativeError
               (''Unable to create '' @ [CHR 0x27] @ ''.events'' @ [CHR 0x27]
                  @ '' directory. Path: /home/u/.zowe/.events'') (Some ENOENT)),
         emitter1\<lparr>fs := (\<lambda>_. None)\<rparr>)"
    by (simp add: subscribe_def setupWatcher_def emitter1_fields H0_fields
        ensureEventsDirExists_def existsSync_def mkdirSync_def parent_exists_def)
  from programming_errors [where st = emitter1 and name = "Some ''other''"] i
  have 1: "initialize (Some ''other'') emitter1 = (Inl already_initialized, emitter1)"
    by simp
  from programming_errors [where st = "new_emitter f0" and H = H0 and evName = "''myEvent''"
      and cb = 7 and now = "''t1''"] n
  have 2: "subscribe H0 ''myEvent'' 7 (new_emitter f0) = (Inl not_initialized, new_emitter f0)
       \<and> unsubscribe ''myEvent'' (new_emitter f0) = (Inl not_initialized, new_emitter f0)
       \<and> emitEvent H0 ''t1'' ''myEvent'' (new_emitter f0)
           = (Inl not_initialized, new_emitter f0)
       \<and> emitCustomEvent H0 ''t1'' ''myEvent'' (new_emitter f0)
           = (Inl not_initialized, new_emitter f0)"
    by simp
  from programming_errors [where st = "emitter1\<lparr>fs := (\<lambda>_. None)\<rparr>" and H = H0
      and evName = "''myEvent''" and cb = 7
      and err = "ImperativeError
               (''Unable to create '' @ [CHR 0x27] @ ''.events'' @ [CHR 0x27]
                  @ '' directory. Path: /home/u/.zowe/.events'') (Some ENOENT)"
      and st' = "emitter1\<lparr>fs := (\<lambda>_. None)\<rparr>"] i s
  have 3: "runtime_failure (ImperativeError
               (''Unable to create '' @ [CHR 0x27] @ ''.events'' @ [CHR 0x27]
                  @ '' directory. Path: /home/u/.zowe/.events'') (Some ENOENT))"
    by simp
  from programming_errors [where st = "new_emitter f0" and name = "Some ''myApp''"
      and name' = "Some ''other''"]
  have 4: "fst (initialize (Some ''other'') (snd (initialize (Some ''myApp'') (new_emitter f0))))
       = Inl already_initialized"
    by simp
  from 1 2 3 4 s show ?thesis by simp
qed

subsection \<open>Delivery and removal in the emitter\<close>

text \<open>
  The listener of \<^verbatim>\<open>ImperativeEventEmitter.setupWatcher\<close> reads the file at every
  notification. A notification that follows one that went through, with the file as it
  was, calls nothing: however many notifications one emission causes, the callbacks run
  once.
\<close>

lemma watch_listener_redundant:
  assumes "watch_listener H evName cbs st = (None, st1)"
  shows "watch_listener H evName cbs st1 = (None, st1)"
  using assms
  by (auto simp: watch_listener_def eventTimes_get_def split: sum.splits option.splits if_splits)

lemma notify_redundant:
  assumes "notify H w st = (None, st1)"
  shows "notify H w st1 = (None, st1)"
proof (cases "w < length (watchers st) \<and> \<not> w_closed (watchers st ! w)")
  case True
  with assms have l: "watch_listener H (w_event (watchers st ! w)) (w_callbacks (watchers st ! w)) st
      = (None, st1)"
    by (simp add: notify_def)
  then have "watchers st1 = watchers st"
    by (auto simp: watch_listener_def split: sum.splits option.splits if_splits)
  with True watch_listener_redundant [OF l] show ?thesis by (simp add: notify_def)
next
  case False
  with assms show ?thesis by (auto simp: notify_def)
qed

lemma notify_many_redundant:
  assumes "notify H w st = (None, st1)"
  shows "((\<lambda>s. snd (notify H w s)) ^^ n) st1 = st1"
  by (induction n) (simp_all add: notify_redundant [OF assms])

text \<open>The callbacks of a subscription are kept in the order of the calls of \<^verbatim>\<open>subscribe\<close>.\<close>

lemma subscribe_registers:
  assumes "subscribe H evName cb st = (Inr d, st')"
  shows "d = Close_of_watcher (length (watchers st))
       \<and> subscriptions st' evName =
           Some (length (watchers st),
                 (case subscriptions st evName of None \<Rightarrow> [] | Some (w, cbs) \<Rightarrow> cbs) @ [cb])"
  using assms
  by (auto simp: subscribe_def setupWatcher_def Let_def close_watcher_def
      split: option.splits sum.splits if_splits prod.splits)

lemma dispose_changes_nothing: "snd (dispose d st) = st"
  by (cases d) simp

text \<open>\<^verbatim>\<open>unsubscribe\<close> is the method that removes a subscription.\<close>

lemma unsubscribe_removes:
  assumes "initialized st"
  shows "subscriptions (snd (unsubscribe evName st)) evName = None
       \<and> eventTimes (snd (unsubscribe evName st)) evName = None"
  using assms by (simp add: unsubscribe_def Let_def split: option.splits)

lemma subscribed1_eq:
  "subscribe H0 ''myEvent'' 7 emitter1 =
     (Inr (Close_of_watcher 0),
      emitter1\<lparr>fs := f0(''/home/u/.zowe/.events'' \<mapsto> Dir,
                        ''/home/u/.zowe/.events/myEvent'' \<mapsto> File ''''),
        watchers := [\<lparr>w_event = ''myEvent'', w_callbacks = [7], w_closed = False\<rparr>],
        subscriptions := (\<lambda>_. None)(''myEvent'' \<mapsto> (0, [7]))\<rparr>)"
  by (simp add: subscribe_def setupWatcher_def emitter1_fields H0_fields paths0
      ensureEventsDirExists_def ensureEventFileExists_def existsSync_def mkdirSync_def
      parent_exists_def writeFileSync_def f0_def)

lemma delivered1_eq:
  "delivered1 =
     emitter1\<lparr>fs := f0(''/home/u/.zowe/.events'' \<mapsto> Dir,
                        ''/home/u/.zowe/.events/myEvent'' \<mapsto> File ''t1''),
        watchers := [\<lparr>w_event = ''myEvent'', w_callbacks = [7], w_closed = False\<rparr>],
        subscriptions := (\<lambda>_. None)(''myEvent'' \<mapsto> (0, [7])),
        invoked := [7],
        eventTimes := (\<lambda>_. None)(''myEvent'' \<mapsto> Str ''t1'')\<rparr>"
  by (simp add: delivered1_def subscribed1_def subscribed1_eq emitCustomEvent_def
      writeEvent_def notify_def watch_listener_def readFileSync_def eventTimes_get_def
      emitter1_fields H0_fields paths0 ensureEventsDirExists_def existsSync_def
      writeFileSync_def parent_exists_def f0_def)

text \<open>
  C5 fails on \<^verbatim>\<open>ImperativeEventEmitter.subscribe\<close>. The object it returns holds the
  \<^verbatim>\<open>close\<close> method of the watcher, taken off the watcher, and not a call of
  \<^verbatim>\<open>unsubscribe\<close>. In the run of the example the callback \<open>7\<close> is subscribed to
  \<open>myEvent\<close> and has had one delivery. Calling the returned \<^verbatim>\<open>close\<close> throws and
  leaves everything as it was: the watcher is not closed, the entry of \<open>myEvent\<close> in
  the subscription map and its last delivered time are still there, and the next
  emission is delivered to the callback again. \<^verbatim>\<open>unsubscribe\<close> closes the watcher and
  removes both entries.
\<close>

theorem disposer_keeps_subscription:
  "fst (subscribe H0 ''myEvent'' 7 emitter1) = Inr (Close_of_watcher 0) \<and>
   invoked delivered1 = [7] \<and>
   dispose (Close_of_watcher 0) delivered1 = (Some (Js TypeError), delivered1) \<and>
   \<not> w_closed (watchers (snd (dispose (Close_of_watcher 0) delivered1)) ! 0) \<and>
   subscriptions (snd (dispose (Close_of_watcher 0) delivered1)) ''myEvent'' = Some (0, [7]) \<and>
   eventTimes (snd (dispose (Close_of_watcher 0) delivered1)) ''myEvent'' = Some (Str ''t1'') \<and>
   invoked (snd (notify H0 0 (snd (emitCustomEvent H0 ''t2'' ''myEvent''
      (snd (dispose (Close_of_watcher 0) delivered1)))))) = [7, 7] \<and>
   w_closed (watchers (snd (unsubscribe ''myEvent'' delivered1)) ! 0) \<and>
   subscriptions (snd (unsubscribe ''myEvent'' delivered1)) ''myEvent'' = None \<and>
   eventTimes (snd (unsubscribe ''myEvent'' delivered1)) ''myEvent'' = None"
proof -
  have "invoked (snd (notify H0 0 (snd (emitCustomEvent H0 ''t2'' ''myEvent'' delivered1))))
      = [7, 7]"
    by (simp add: delivered1_eq emitCustomEvent_def writeEvent_def notify_def
        watch_listener_def readFileSync_def eventTimes_get_def emitter1_fields H0_fields
        paths0 ensureEventsDirExists_def existsSync_def writeFileSync_def parent_exists_def
        f0_def)
  moreover have "w_closed (watchers (snd (unsubscribe ''myEvent'' delivered1)) ! 0)"
    and "subscriptions (snd (unsubscribe ''myEvent'' delivered1)) ''myEvent'' = None"
    and "eventTimes (snd (unsubscribe ''myEvent'' delivered1)) ''myEvent'' = None"
    by (simp_all add: delivered1_eq close_watcher_def unsubscribe_def emitter1_fields)
  moreover have "\<not> w_closed (watchers delivered1 ! 0)"
    and "subscriptions delivered1 ''myEvent'' = Some (0, [7])"
    and "eventTimes delivered1 ''myEvent'' = Some (Str ''t1'')"
    and "invoked delivered1 = [7]"
    by (simp_all add: delivered1_eq)
  ultimately show ?thesis by (simp add: subscribed1_eq)
qed

lemma emitter_delivers_each_emission_once:
  "snd (notify H0 0 delivered1) = delivered1 \<and>
   invoked (snd (notify H0 0 (snd (notify H0 0
      (snd (emitCustomEvent H0 ''t2'' ''myEvent'' delivered1)))))) = [7, 7]"
  by (simp add: delivered1_eq emitCustomEvent_def writeEvent_def notify_def
      watch_listener_def readFileSync_def eventTimes_get_def emitter1_fields H0_fields paths0
      ensureEventsDirExists_def existsSync_def writeFileSync_def parent_exists_def f0_def)

subsection \<open>Delivery in the event utilities\<close>

text \<open>
  The listener of \<^verbatim>\<open>EventUtils.setupWatcher\<close> does not depend on the file system, and
  once a notification has gone through, no later one calls anything, whatever has been
  written to the file since.
\<close>

lemma ee_notify_ignores_files:
  "ee_invoked (snd (ee_notify w (ee\<lparr>ee_fs := f\<rparr>))) = ee_invoked (snd (ee_notify w ee))"
  by (simp add: ee_notify_def ee_watch_listener_def split: option.splits)

lemma ee_notify_never_again:
  "ee_invoked (snd (ee_notify w (file_written p c (snd (ee_notify w ee)))))
     = ee_invoked (snd (ee_notify w ee))"
  by (simp add: ee_notify_def ee_watch_listener_def file_written_def split: option.splits)

lemma ee_watched_eq:
  "EventUtils_setupWatcher ''myEvent'' (Many [7])
       (snd (createSubscription ''/home/u/.zowe'' ''t0'' ''myEvent'' CustomSharedEvents ee0))
     = (Inr 0, ee_watched)"
  "ee_watchers ee_watched
     = [\<lparr>ew_name = ''myEvent'', ew_event = 0, ew_callbacks = Many [7], ew_closed = False\<rparr>]"
  "heap ee_watched 0
     = Some \<lparr>eventTime = ''t0'', eventName = ''myEvent'', eventType = CustomSharedEvents,
             ev_appName = ''myApp'', filePath = ''/home/u/.zowe/.events/myApp/myEvent'',
             ev_subscriptions = [0]\<rparr>"
  "ee_eventTimes ee_watched = (\<lambda>_. None)" "ee_invoked ee_watched = []"
  "ee_fs ee_watched ''/home/u/.zowe/.events/myApp/myEvent'' = Some (File '''')"
  by (simp_all add: ee_watched_def EventUtils_setupWatcher_def createSubscription_def
      EventUtils_getEventDir_def paths0 Let_def ensureEventsDirExists_def existsSync_def
      mkdirSync_def parent_exists_def ensureEventFileExists_def writeFileSync_def ee0_def
      new_EventEmitter_def f0_def)

text \<open>
  C3 fails on \<^verbatim>\<open>EventUtils.setupWatcher\<close>. Its listener compares the time delivered
  last with the \<^verbatim>\<open>eventTime\<close> of the \<^verbatim>\<open>Event\<close> object made at subscription and does
  not read the file. In the run of the example the subscription to \<open>myEvent\<close> is made at
  \<open>t0\<close>; the event is emitted at \<open>t1\<close> (the file is overwritten) and the watcher is
  notified: the callback runs and \<open>t0\<close> is recorded as delivered. The event is emitted
  again at \<open>t2\<close> and the watcher is notified: nothing runs. The listener of
  \<^verbatim>\<open>ImperativeEventEmitter.setupWatcher\<close> reads the file each time and delivers both
  emissions, each once (\<open>notify_redundant\<close>, \<open>emitter_delivers_each_emission_once\<close>).
\<close>

theorem eventutils_second_emission_lost:
  "ee_invoked (snd (ee_notify 0
      (file_written ''/home/u/.zowe/.events/myApp/myEvent'' ''t1'' ee_watched))) = [7] \<and>
   ee_eventTimes (snd (ee_notify 0
      (file_written ''/home/u/.zowe/.events/myApp/myEvent'' ''t1'' ee_watched))) ''myEvent''
     = Some ''t0'' \<and>
   ee_invoked (snd (ee_notify 0
      (file_written ''/home/u/.zowe/.events/myApp/myEvent'' ''t2''
        (snd (ee_notify 0
          (file_written ''/home/u/.zowe/.events/myApp/myEvent'' ''t1'' ee_watched)))))) = [7]"
  by (simp add: ee_notify_def ee_watch_listener_def file_written_def ee_watched_eq)

end
